theory Spec2Isabelle
  imports Complex_Main "HOL-Library.Log_Nat" "HOL-Library.Multiset"
begin

section \<open>Python values used by optimizer.py\<close>

text \<open>
  The exceptions that the statements of \<^verbatim>\<open>generate_schedule\<close> can raise:
  a division by zero, a missing dictionary key or row label, an empty range handed to
  \<^verbatim>\<open>random.randint\<close>, and the \<^verbatim>\<open>RuntimeError\<close> raised at line 103.
\<close>

datatype error = ZeroDivisionError | KeyError | ValueError | RuntimeError string

subsection \<open>Binary64 arithmetic\<close>

text \<open>
  A Python \<^verbatim>\<open>float\<close> is an IEEE binary64 number. Finite floats are modelled as the
  rationals they denote; \<open>rd\<close> rounds a rational to the nearest number with a 53-bit
  significand, ties to even. The exponent is unbounded in the model: quotients of two
  64-bit integers and their products with 100 stay inside the normal range of binary64,
  where the two agree.
\<close>

definition pow2 :: "int \<Rightarrow> rat" where
  "pow2 k = 2 powi k"

definition round_half_even :: "rat \<Rightarrow> int" where
  "round_half_even y =
     (let f = \<lfloor>y\<rfloor>; r = y - of_int f
      in if r < 1 / 2 then f
         else if 1 / 2 < r then f + 1
         else if even f then f else f + 1)"

text \<open>The exponent \<open>e\<close> with \<open>2 ^ e \<le> x < 2 ^ (e + 1)\<close>, for positive \<open>x\<close>.\<close>

definition binade :: "rat \<Rightarrow> int" where
  "binade x =
     (let (p, q) = quotient_of x; k = bitlen p - bitlen q
      in if pow2 k \<le> x then k else k - 1)"

definition rd :: "rat \<Rightarrow> rat" where
  "rd x =
     (if x = 0 then 0
      else let a = \<bar>x\<bar>; u = pow2 (binade a - 52)
           in sgn x * of_int (round_half_even (a / u)) * u)"

text \<open>\<^verbatim>\<open>a / b\<close> on two ints (correctly rounded), \<^verbatim>\<open>x * y\<close> on floats, \<^verbatim>\<open>int(x)\<close>.\<close>

definition truediv :: "int \<Rightarrow> int \<Rightarrow> error + rat" where
  "truediv a b = (if b = 0 then Inl ZeroDivisionError else Inr (rd (of_int a / of_int b)))"

definition fmul :: "rat \<Rightarrow> rat \<Rightarrow> rat" where
  "fmul x y = rd (x * y)"

definition py_int :: "rat \<Rightarrow> int" where
  "py_int x = (if 0 \<le> x then \<lfloor>x\<rfloor> else \<lceil>x\<rceil>)"

definition py_range :: "int \<Rightarrow> int list" where
  "py_range n = map int [0..<nat n]"

subsection \<open>Dictionaries and sequencing of fallible steps\<close>

definition lookup :: "('k \<rightharpoonup> 'v) \<Rightarrow> 'k \<Rightarrow> error + 'v" where
  "lookup m k = (case m k of None \<Rightarrow> Inl KeyError | Some v \<Rightarrow> Inr v)"

fun mapM :: "('a \<Rightarrow> error + 'b) \<Rightarrow> 'a list \<Rightarrow> error + 'b list" where
  "mapM f [] = Inr []"
| "mapM f (x # xs) =
     (case f x of
        Inl e \<Rightarrow> Inl e
      | Inr y \<Rightarrow> (case mapM f xs of Inl e \<Rightarrow> Inl e | Inr ys \<Rightarrow> Inr (y # ys)))"

section \<open>Data\<close>

text \<open>
  A row of \<^verbatim>\<open>fleet_df\<close> and a row of \<^verbatim>\<open>parts_df\<close>, with the columns that
  \<^verbatim>\<open>generate_schedule\<close> reads; \<open>unit_cost\<close> is a finite float. The planning parameters
  are the module constants of lines 9 to 12, read at call time.
\<close>

record aircraft =
  aircraft_id :: string
  hours_until_due :: int

record part =
  part_id :: string
  unit_cost :: rat
  quantity_on_hand :: int

record planning_config =
  PLANNING_HORIZON_DAYS :: int
  MAINT_DURATION_MIN :: int
  MAINT_DURATION_MAX :: int
  CREW_AVAILABLE :: int

definition module_config :: planning_config where
  "module_config =
     \<lparr>PLANNING_HORIZON_DAYS = 30, MAINT_DURATION_MIN = 1, MAINT_DURATION_MAX = 2,
      CREW_AVAILABLE = 2\<rparr>"

text \<open>One dictionary appended to \<^verbatim>\<open>schedule_rows\<close> (lines 150 to 158).\<close>

record task =
  row_aircraft_id :: string
  schedule_start :: int
  schedule_end :: int
  row_part_id :: "string option"
  part_quantity :: int
  cost :: rat
  status :: string

section \<open>The CP-SAT model\<close>

text \<open>
  Every call of \<^verbatim>\<open>NewIntVar\<close> or \<^verbatim>\<open>NewBoolVar\<close> makes a fresh variable. The variables made
  in iteration \<open>i\<close> of the loop of line 53 are \<open>Start i\<close>, \<open>Dur i\<close> and, for each day \<open>d\<close>,
  \<open>On i d\<close>, \<open>Before i d\<close> and \<open>After i d\<close>. A Boolean variable is an integer variable
  with domain \<open>[0, 1]\<close>; \<open>Neg v\<close> is \<^verbatim>\<open>v.Not()\<close>.
\<close>

datatype cp_var = Start nat | Dur nat | On nat int | Before nat int | After nat int

datatype lit = Pos cp_var | Neg cp_var

datatype bounded_expr =
    LinLe "(int \<times> cp_var) list" int
  | LinGt "(int \<times> cp_var) list" int
  | BoolAnd "lit list"
  | BoolOr "lit list"

text \<open>\<open>Constraint e ls\<close> is the constraint \<open>e\<close> with \<^verbatim>\<open>OnlyEnforceIf\<close> literals \<open>ls\<close>.\<close>

datatype constraint = Constraint bounded_expr "lit list"

record cp_model =
  variables :: "(cp_var \<times> int \<times> int) list"
  constraints :: "constraint list"
  objective :: "(int \<times> cp_var) list"

type_synonym assignment = "cp_var \<Rightarrow> int"

definition lin_value :: "assignment \<Rightarrow> (int \<times> cp_var) list \<Rightarrow> int" where
  "lin_value \<sigma> ts = sum_list (map (\<lambda>(c, v). c * \<sigma> v) ts)"

fun lit_true :: "assignment \<Rightarrow> lit \<Rightarrow> bool" where
  "lit_true \<sigma> (Pos v) = (\<sigma> v = 1)"
| "lit_true \<sigma> (Neg v) = (\<sigma> v = 0)"

fun expr_holds :: "assignment \<Rightarrow> bounded_expr \<Rightarrow> bool" where
  "expr_holds \<sigma> (LinLe ts k) = (lin_value \<sigma> ts \<le> k)"
| "expr_holds \<sigma> (LinGt ts k) = (k < lin_value \<sigma> ts)"
| "expr_holds \<sigma> (BoolAnd ls) = list_all (lit_true \<sigma>) ls"
| "expr_holds \<sigma> (BoolOr ls) = list_ex (lit_true \<sigma>) ls"

fun constraint_holds :: "assignment \<Rightarrow> constraint \<Rightarrow> bool" where
  "constraint_holds \<sigma> (Constraint e ls) = (list_all (lit_true \<sigma>) ls \<longrightarrow> expr_holds \<sigma> e)"

fun in_domain :: "assignment \<Rightarrow> cp_var \<times> int \<times> int \<Rightarrow> bool" where
  "in_domain \<sigma> (v, lo, hi) = (lo \<le> \<sigma> v \<and> \<sigma> v \<le> hi)"

text \<open>A feasible solution: every variable in its domain, every constraint satisfied.\<close>

definition feasible :: "assignment \<Rightarrow> cp_model \<Rightarrow> bool" where
  "feasible \<sigma> m \<longleftrightarrow>
     list_all (in_domain \<sigma>) (variables m) \<and> list_all (constraint_holds \<sigma>) (constraints m)"

text \<open>
  The solver is OR-Tools, outside the repository: a parameter that maps a model to a
  status and the values \<^verbatim>\<open>solver.Value\<close> reports. A solver is sound on a model when the
  values it reports with status \<open>OPTIMAL\<close> or \<open>FEASIBLE\<close> are a feasible solution.
\<close>

datatype cp_status = UNKNOWN | MODEL_INVALID | FEASIBLE | INFEASIBLE | OPTIMAL

type_synonym cp_solver = "cp_model \<Rightarrow> cp_status \<times> assignment"

definition solver_sound :: "cp_solver \<Rightarrow> cp_model \<Rightarrow> bool" where
  "solver_sound solver m \<longleftrightarrow>
     (case solver m of (st, \<sigma>) \<Rightarrow> (st = OPTIMAL \<or> st = FEASIBLE) \<longrightarrow> feasible \<sigma> m)"

section \<open>Building the model (lines 42 to 94)\<close>

record builder =
  model :: cp_model
  start_day :: "string \<rightharpoonup> cp_var"
  duration :: "string \<rightharpoonup> cp_var"
  is_scheduled_on_day :: "string \<times> int \<rightharpoonup> cp_var"

definition empty_builder :: builder where
  "empty_builder =
     \<lparr>model = \<lparr>variables = [], constraints = [], objective = []\<rparr>,
      start_day = Map.empty, duration = Map.empty, is_scheduled_on_day = Map.empty\<rparr>"

text \<open>Lines 60 to 74 for aircraft number \<open>i\<close> and day \<open>d\<close>.\<close>

definition link_day :: "nat \<Rightarrow> int \<Rightarrow> constraint list" where
  "link_day i d =
     [Constraint (LinLe [(1, Start i)] d) [Pos (Before i d)],
      Constraint (LinGt [(1, Start i)] d) [Neg (Before i d)],
      Constraint (LinGt [(1, Start i), (1, Dur i)] d) [Pos (After i d)],
      Constraint (LinLe [(1, Start i), (1, Dur i)] d) [Neg (After i d)],
      Constraint (BoolAnd [Pos (Before i d), Pos (After i d)]) [Pos (On i d)],
      Constraint (BoolOr [Neg (Before i d), Neg (After i d)]) [Neg (On i d)]]"

text \<open>One iteration of the loop of line 53.\<close>

definition add_aircraft :: "planning_config \<Rightarrow> nat \<times> string \<Rightarrow> builder \<Rightarrow> builder" where
  "add_aircraft cfg ia b =
     (case ia of (i, aid) \<Rightarrow>
        let horizon = PLANNING_HORIZON_DAYS cfg; days = py_range horizon
        in b\<lparr>start_day := (start_day b)(aid \<mapsto> Start i),
             duration := (duration b)(aid \<mapsto> Dur i),
             is_scheduled_on_day :=
               fold (\<lambda>d m. m((aid, d) \<mapsto> On i d)) days (is_scheduled_on_day b),
             model := (model b)
               \<lparr>variables := variables (model b)
                  @ [(Start i, 0, horizon - 1),
                     (Dur i, MAINT_DURATION_MIN cfg, MAINT_DURATION_MAX cfg)]
                  @ map (\<lambda>d. (On i d, 0, 1)) days
                  @ concat (map (\<lambda>d. [(Before i d, 0, 1), (After i d, 0, 1)]) days),
                constraints := constraints (model b) @ concat (map (link_day i) days)\<rparr>\<rparr>)"

definition add_variables :: "planning_config \<Rightarrow> string list \<Rightarrow> builder" where
  "add_variables cfg aircraft_list =
     fold (add_aircraft cfg) (enumerate 0 aircraft_list) empty_builder"

text \<open>Lines 78 and 79: the capacity constraint of day \<open>d\<close>, then all of them.\<close>

definition capacity_constraint ::
  "planning_config \<Rightarrow> builder \<Rightarrow> string list \<Rightarrow> int \<Rightarrow> error + constraint" where
  "capacity_constraint cfg b aircraft_list d =
     (case mapM (\<lambda>aid. lookup (is_scheduled_on_day b) (aid, d)) aircraft_list of
        Inl e \<Rightarrow> Inl e
      | Inr vs \<Rightarrow> Inr (Constraint (LinLe (map (\<lambda>v. (1, v)) vs) (CREW_AVAILABLE cfg)) []))"

definition add_capacity :: "planning_config \<Rightarrow> builder \<Rightarrow> string list \<Rightarrow> error + builder" where
  "add_capacity cfg b aircraft_list =
     (case mapM (capacity_constraint cfg b aircraft_list)
             (py_range (PLANNING_HORIZON_DAYS cfg)) of
        Inl e \<Rightarrow> Inl e
      | Inr cs \<Rightarrow> Inr (b\<lparr>model := (model b)\<lparr>constraints := constraints (model b) @ cs\<rparr>\<rparr>))"

text \<open>Lines 83 to 91: the urgency weights.\<close>

definition max_hours :: "aircraft list \<Rightarrow> int" where
  "max_hours fleet = (if fleet \<noteq> [] then Max (set (map hours_until_due fleet)) else 1)"

definition row_weight :: "int \<Rightarrow> aircraft \<Rightarrow> error + int" where
  "row_weight mh row =
     (let urgency = hours_until_due row
      in case truediv (mh - urgency) mh of
           Inl e \<Rightarrow> Inl e
         | Inr r \<Rightarrow> Inr (max 1 (py_int (fmul r 100))))"

fun compute_weights ::
  "int \<Rightarrow> aircraft list \<Rightarrow> (string \<rightharpoonup> int) \<Rightarrow> error + (string \<rightharpoonup> int)" where
  "compute_weights mh [] weights = Inr weights"
| "compute_weights mh (row # rows) weights =
     (case row_weight mh row of
        Inl e \<Rightarrow> Inl e
      | Inr weight \<Rightarrow> compute_weights mh rows (weights(aircraft_id row \<mapsto> weight)))"

text \<open>Line 94: the terms of the sum handed to \<^verbatim>\<open>model.Minimize\<close>.\<close>

definition objective_term :: "builder \<Rightarrow> (string \<rightharpoonup> int) \<Rightarrow> string \<Rightarrow> error + int \<times> cp_var" where
  "objective_term b weights aid =
     (case lookup (start_day b) aid of
        Inl e \<Rightarrow> Inl e
      | Inr v \<Rightarrow> (case lookup weights aid of Inl e \<Rightarrow> Inl e | Inr w \<Rightarrow> Inr (w, v)))"

definition build_model :: "planning_config \<Rightarrow> aircraft list \<Rightarrow> error + builder" where
  "build_model cfg fleet =
     (let aircraft_list = map aircraft_id fleet
      in case add_capacity cfg (add_variables cfg aircraft_list) aircraft_list of
           Inl e \<Rightarrow> Inl e
         | Inr b \<Rightarrow>
             (case compute_weights (max_hours fleet) fleet Map.empty of
                Inl e \<Rightarrow> Inl e
              | Inr weights \<Rightarrow>
                  (case mapM (objective_term b weights) aircraft_list of
                     Inl e \<Rightarrow> Inl e
                   | Inr terms \<Rightarrow> Inr (b\<lparr>model := (model b)\<lparr>objective := terms\<rparr>\<rparr>))))"

section \<open>Part allocation and emission (lines 105 to 161)\<close>

text \<open>
  \<^verbatim>\<open>random.randint(a, b)\<close> raises \<^verbatim>\<open>ValueError\<close> on an empty range and otherwise returns
  some integer of \<open>[a, b]\<close>. The generator is a parameter: the stream of raw numbers it
  draws from, the \<open>k\<close>-th call taking the \<open>k\<close>-th number.
\<close>

type_synonym entropy = "nat \<Rightarrow> nat"

definition randint :: "entropy \<Rightarrow> nat \<Rightarrow> int \<Rightarrow> int \<Rightarrow> error + int" where
  "randint rnd k a b =
     (if b < a then Inl ValueError else Inr (a + int (rnd k) mod (b - a + 1)))"

text \<open>
  The clock is a parameter too: \<open>clk k\<close> is the local time, in nanoseconds, that the
  \<open>k\<close>-th call of \<^verbatim>\<open>pd.Timestamp.now()\<close> returns.
\<close>

type_synonym clock = "nat \<Rightarrow> int"

definition day_ns :: int where
  "day_ns = 86400000000000"

definition normalize_ts :: "int \<Rightarrow> int" where
  "normalize_ts t = t - t mod day_ns"

definition Timedelta :: "int \<Rightarrow> int" where
  "Timedelta days = days * day_ns"

text \<open>
  Line 108 sorts the copy with pandas' \<^verbatim>\<open>sort_values\<close>, whose default algorithm is
  not stable: rows with equal stock come out in an order that pandas chooses. The
  routine is a parameter, \<open>sort_values\<close>, of everything that starts from the sorted
  copy; a property that needs it to return the rows it was given, in some order, says so.
\<close>

type_synonym row_sorter = "part list \<Rightarrow> part list"

definition loc :: "'a list \<Rightarrow> nat \<Rightarrow> error + 'a" where
  "loc rows i = (if i < length rows then Inr (rows ! i) else Inl KeyError)"

text \<open>
  The state that the loop of line 114 carries from one aircraft to the next, with the
  numbers of random draws and clock readings made so far.
\<close>

record run_state =
  parts_copy :: "part list"
  part_idx :: nat
  total_parts_available :: int
  draws :: nat
  ticks :: nat

text \<open>
  The loop of line 127, entered with \<open>allocated = False\<close>. It returns the state and
  \<open>(part_id, part_quantity, cost)\<close>; leaving the loop without an allocation returns the
  defaults of lines 119 to 121.
\<close>

function probe ::
  "entropy \<Rightarrow> run_state \<Rightarrow> nat \<Rightarrow> error + run_state \<times> string option \<times> int \<times> rat" where
  "probe rnd st attempts =
     (if attempts < length (parts_copy st) then
        (let idx = (if length (parts_copy st) \<le> part_idx st then 0 else part_idx st)
         in case loc (parts_copy st) idx of
              Inl e \<Rightarrow> Inl e
            | Inr prow \<Rightarrow>
                (let avail = quantity_on_hand prow
                 in if 0 < avail then
                      (case randint rnd (draws st) 1 (min 3 avail) of
                         Inl e \<Rightarrow> Inl e
                       | Inr quantity \<Rightarrow>
                           Inr (st\<lparr>parts_copy := (parts_copy st)
                                      [idx := prow\<lparr>quantity_on_hand := avail - quantity\<rparr>],
                                    total_parts_available := total_parts_available st - quantity,
                                    part_idx := (idx + 1) mod length (parts_copy st),
                                    draws := draws st + 1\<rparr>,
                                Some (part_id prow), quantity,
                                fmul (unit_cost prow) (of_int quantity)))
                    else probe rnd (st\<lparr>part_idx := (idx + 1) mod length (parts_copy st)\<rparr>)
                           (attempts + 1)))
      else Inr (st, None, 0, 0))"
  by pat_completeness auto
termination
  by (relation "measure (\<lambda>(rnd, st, attempts). length (parts_copy st) - attempts)") auto

declare probe.simps [simp del]

text \<open>Lines 119 to 148 for one aircraft.\<close>

definition allocate_part ::
  "entropy \<Rightarrow> run_state \<Rightarrow> error + run_state \<times> string option \<times> int \<times> rat" where
  "allocate_part rnd st =
     (if 0 < total_parts_available st \<and> parts_copy st \<noteq> [] then probe rnd st 0
      else Inr (st, None, 0, 0))"

text \<open>Lines 116 and 117: the start day and the duration the solver assigned to a row.\<close>

definition solved_window :: "builder \<Rightarrow> assignment \<Rightarrow> aircraft \<Rightarrow> error + int \<times> int" where
  "solved_window b \<sigma> row =
     (case lookup (start_day b) (aircraft_id row) of
        Inl e \<Rightarrow> Inl e
      | Inr sv \<Rightarrow>
          (case lookup (duration b) (aircraft_id row) of
             Inl e \<Rightarrow> Inl e
           | Inr dv \<Rightarrow> Inr (\<sigma> sv, \<sigma> dv)))"

text \<open>One iteration of the loop of line 114.\<close>

definition schedule_row ::
  "entropy \<Rightarrow> clock \<Rightarrow> builder \<Rightarrow> assignment \<Rightarrow> run_state \<Rightarrow> aircraft
     \<Rightarrow> error + run_state \<times> task" where
  "schedule_row rnd clk b \<sigma> st row =
     (case solved_window b \<sigma> row of
        Inl e \<Rightarrow> Inl e
      | Inr (s, dur) \<Rightarrow>
          (case allocate_part rnd st of
             Inl e \<Rightarrow> Inl e
           | Inr (st1, pid, quantity, c) \<Rightarrow>
               Inr (st1\<lparr>ticks := ticks st1 + 2\<rparr>,
                    \<lparr>row_aircraft_id = aircraft_id row,
                     schedule_start = normalize_ts (clk (ticks st1)) + Timedelta s,
                     schedule_end = normalize_ts (clk (ticks st1 + 1)) + Timedelta (s + dur),
                     row_part_id = pid,
                     part_quantity = quantity,
                     cost = c,
                     status = ''SCHEDULED''\<rparr>)))"

fun schedule_rows ::
  "entropy \<Rightarrow> clock \<Rightarrow> builder \<Rightarrow> assignment \<Rightarrow> run_state \<Rightarrow> aircraft list
     \<Rightarrow> error + run_state \<times> task list" where
  "schedule_rows rnd clk b \<sigma> st [] = Inr (st, [])"
| "schedule_rows rnd clk b \<sigma> st (row # rows) =
     (case schedule_row rnd clk b \<sigma> st row of
        Inl e \<Rightarrow> Inl e
      | Inr (st1, t) \<Rightarrow>
          (case schedule_rows rnd clk b \<sigma> st1 rows of
             Inl e \<Rightarrow> Inl e
           | Inr (st2, ts) \<Rightarrow> Inr (st2, t # ts)))"

text \<open>Lines 108 to 112: the state in which the loop starts.\<close>

definition initial_state :: "row_sorter \<Rightarrow> part list \<Rightarrow> run_state" where
  "initial_state sort_values parts =
     (let pc = sort_values parts
      in \<lparr>parts_copy = pc, part_idx = 0,
          total_parts_available = (if pc \<noteq> [] then sum_list (map quantity_on_hand pc) else 0),
          draws = 0, ticks = 0\<rparr>)"

definition generate_schedule ::
  "planning_config \<Rightarrow> cp_solver \<Rightarrow> row_sorter \<Rightarrow> entropy \<Rightarrow> clock \<Rightarrow> aircraft list
     \<Rightarrow> part list \<Rightarrow> error + task list" where
  "generate_schedule cfg solver sort_values rnd clk fleet parts =
     (case build_model cfg fleet of
        Inl e \<Rightarrow> Inl e
      | Inr b \<Rightarrow>
          (case solver (model b) of
             (st, \<sigma>) \<Rightarrow>
               if \<not> (st = OPTIMAL \<or> st = FEASIBLE)
               then Inl (RuntimeError ''No feasible solution found'')
               else (case schedule_rows rnd clk b \<sigma> (initial_state sort_values parts) fleet of
                       Inl e \<Rightarrow> Inl e
                     | Inr (st', tasks) \<Rightarrow> Inr tasks)))"

section \<open>Notions used by the properties\<close>

text \<open>A window \<open>(start_day, duration)\<close> covers the days \<open>[start_day, start_day + duration)\<close>.\<close>

definition covers :: "int \<Rightarrow> int \<times> int \<Rightarrow> bool" where
  "covers d w \<longleftrightarrow> fst w \<le> d \<and> d < fst w + snd w"

definition occupancy :: "(int \<times> int) list \<Rightarrow> int \<Rightarrow> nat" where
  "occupancy ws d = length (filter (covers d) ws)"

text \<open>The stock of a part id in an inventory, and what a task list consumes of it.\<close>

definition stock :: "string \<Rightarrow> part list \<Rightarrow> int" where
  "stock pid parts = sum_list (map quantity_on_hand (filter (\<lambda>p. part_id p = pid) parts))"

definition consumed :: "string \<Rightarrow> task list \<Rightarrow> int" where
  "consumed pid tasks =
     sum_list (map part_quantity (filter (\<lambda>t. row_part_id t = Some pid) tasks))"

text \<open>
  What the probing loop returns: always a result, either the defaults with the state's
  stock untouched, or a part \<open>j\<close> of the working copy, a quantity between 1 and
  \<open>min 3\<close> of its stock, the cost, and the stock of that part reduced by the quantity.
\<close>

definition allocated ::
  "run_state \<Rightarrow> run_state \<Rightarrow> string option \<Rightarrow> int \<Rightarrow> rat \<Rightarrow> nat \<Rightarrow> bool" where
  "allocated st st' pid q c j \<longleftrightarrow>
     j < length (parts_copy st)
     \<and> pid = Some (part_id (parts_copy st ! j))
     \<and> 1 \<le> q \<and> q \<le> min 3 (quantity_on_hand (parts_copy st ! j))
     \<and> c = fmul (unit_cost (parts_copy st ! j)) (of_int q)
     \<and> parts_copy st' = (parts_copy st)
          [j := (parts_copy st ! j)\<lparr>quantity_on_hand := quantity_on_hand (parts_copy st ! j) - q\<rparr>]
     \<and> total_parts_available st' = total_parts_available st - q
     \<and> draws st' = draws st + 1"

definition unallocated ::
  "run_state \<Rightarrow> run_state \<Rightarrow> string option \<Rightarrow> int \<Rightarrow> rat \<Rightarrow> bool" where
  "unallocated st st' pid q c \<longleftrightarrow>
     pid = None \<and> q = 0 \<and> c = 0 \<and> parts_copy st' = parts_copy st
     \<and> total_parts_available st' = total_parts_available st \<and> draws st' = draws st"

text \<open>The objective of the model that \<^verbatim>\<open>generate_schedule\<close> hands to the solver.\<close>

definition built_objective :: "planning_config \<Rightarrow> aircraft list \<Rightarrow> error + (int \<times> cp_var) list" where
  "built_objective cfg fleet =
     (case build_model cfg fleet of Inl e \<Rightarrow> Inl e | Inr b \<Rightarrow> Inr (objective (model b)))"

text \<open>
  The weight as the specification words it (section 4.2): the maximum is taken as 1
  for an empty fleet and for a fleet of zeros, and the percentage is rounded.
\<close>

definition spec_max_hours_until_due :: "aircraft list \<Rightarrow> int" where
  "spec_max_hours_until_due fleet =
     (if fleet = [] \<or> list_all (\<lambda>a. hours_until_due a = 0) fleet then 1
      else Max (set (map hours_until_due fleet)))"

definition spec_weight :: "int \<Rightarrow> int \<Rightarrow> int" where
  "spec_weight mh h = max 1 (round_half_even ((of_int (mh - h) / of_int mh) * 100))"

definition spec_objective :: "aircraft list \<Rightarrow> (int \<times> cp_var) list" where
  "spec_objective fleet =
     map (\<lambda>(i, a). (spec_weight (spec_max_hours_until_due fleet) (hours_until_due a), Start i))
       (enumerate 0 fleet)"

section \<open>Scenarios\<close>

text \<open>
  The assignment in which aircraft number \<open>i\<close> has the window \<open>w i\<close> and every Boolean
  variable has the value its name describes.
\<close>

fun window_assignment :: "(nat \<Rightarrow> int \<times> int) \<Rightarrow> assignment" where
  "window_assignment w (Start i) = fst (w i)"
| "window_assignment w (Dur i) = snd (w i)"
| "window_assignment w (On i d) = (if fst (w i) \<le> d \<and> d < fst (w i) + snd (w i) then 1 else 0)"
| "window_assignment w (Before i d) = (if fst (w i) \<le> d then 1 else 0)"
| "window_assignment w (After i d) = (if d < fst (w i) + snd (w i) then 1 else 0)"

text \<open>Scenario A of the specification, with two parts in stock.\<close>

definition fleet_A :: "aircraft list" where
  "fleet_A =
     [\<lparr>aircraft_id = ''AIR-1001'', hours_until_due = 10\<rparr>,
      \<lparr>aircraft_id = ''AIR-1002'', hours_until_due = 500\<rparr>,
      \<lparr>aircraft_id = ''AIR-1003'', hours_until_due = 50\<rparr>]"

definition parts_A :: "part list" where
  "parts_A =
     [\<lparr>part_id = ''PART-101'', unit_cost = 5 / 2, quantity_on_hand = 1\<rparr>,
      \<lparr>part_id = ''PART-102'', unit_cost = 10, quantity_on_hand = 2\<rparr>]"

definition windows_A :: "nat \<Rightarrow> int \<times> int" where
  "windows_A i = (if i = 1 then (1, 1) else (0, 1))"

definition solver_A :: cp_solver where
  "solver_A m = (OPTIMAL, window_assignment windows_A)"

text \<open>A sorting routine: insertion by descending stock, which keeps ties in their order.\<close>

definition stable_sort_values :: row_sorter where
  "stable_sort_values parts = sort_key (\<lambda>p. - quantity_on_hand p) parts"

definition rnd_A :: entropy where
  "rnd_A k = 7"

definition clk_A :: clock where
  "clk_A k = 5"

definition builder_A :: builder where
  "builder_A = (case build_model module_config fleet_A of Inl e \<Rightarrow> empty_builder | Inr b \<Rightarrow> b)"

definition tasks_A :: "task list" where
  "tasks_A =
     [\<lparr>row_aircraft_id = ''AIR-1001'', schedule_start = 0, schedule_end = 86400000000000,
       row_part_id = Some ''PART-102'', part_quantity = 2, cost = 20, status = ''SCHEDULED''\<rparr>,
      \<lparr>row_aircraft_id = ''AIR-1002'', schedule_start = 86400000000000,
       schedule_end = 172800000000000, row_part_id = Some ''PART-101'', part_quantity = 1,
       cost = 5 / 2, status = ''SCHEDULED''\<rparr>,
      \<lparr>row_aircraft_id = ''AIR-1003'', schedule_start = 0, schedule_end = 86400000000000,
       row_part_id = None, part_quantity = 0, cost = 0, status = ''SCHEDULED''\<rparr>]"

text \<open>Scenario D of the specification: a horizon of 2 days and a minimum duration of 3.\<close>

definition config_D :: planning_config where
  "config_D =
     \<lparr>PLANNING_HORIZON_DAYS = 2, MAINT_DURATION_MIN = 3, MAINT_DURATION_MAX = 3,
      CREW_AVAILABLE = 2\<rparr>"

definition fleet_D :: "aircraft list" where
  "fleet_D = [\<lparr>aircraft_id = ''AIR-1001'', hours_until_due = 10\<rparr>]"

definition solver_D :: cp_solver where
  "solver_D m = (OPTIMAL, window_assignment (\<lambda>i. (0, 3)))"

definition builder_D :: builder where
  "builder_D = (case build_model config_D fleet_D of Inl e \<Rightarrow> empty_builder | Inr b \<Rightarrow> b)"

definition tasks_D :: "task list" where
  "tasks_D =
     [\<lparr>row_aircraft_id = ''AIR-1001'', schedule_start = 0, schedule_end = 259200000000000,
       row_part_id = Some ''PART-102'', part_quantity = 2, cost = 20, status = ''SCHEDULED''\<rparr>]"

text \<open>A minimum duration above the maximum, and a solver that finds the model infeasible.\<close>

definition config_E :: planning_config where
  "config_E =
     \<lparr>PLANNING_HORIZON_DAYS = 2, MAINT_DURATION_MIN = 3, MAINT_DURATION_MAX = 2,
      CREW_AVAILABLE = 2\<rparr>"

definition solver_E :: cp_solver where
  "solver_E m = (INFEASIBLE, (\<lambda>v. 0))"

definition builder_E :: builder where
  "builder_E = (case build_model config_E fleet_D of Inl e \<Rightarrow> empty_builder | Inr b \<Rightarrow> b)"

text \<open>A fleet whose only aircraft is due now.\<close>

definition fleet_Z :: "aircraft list" where
  "fleet_Z = [\<lparr>aircraft_id = ''AIR-1001'', hours_until_due = 0\<rparr>]"

text \<open>Two aircraft whose percentage is not a whole number.\<close>

definition fleet_R :: "aircraft list" where
  "fleet_R =
     [\<lparr>aircraft_id = ''AIR-1001'', hours_until_due = 1\<rparr>,
      \<lparr>aircraft_id = ''AIR-1002'', hours_until_due = 3\<rparr>]"

text \<open>
  A clock that passes midnight between the two readings of the first task: one
  nanosecond before the end of day 0, then the start of day 1.
\<close>

definition clk_midnight :: clock where
  "clk_midnight k = (if k = 0 then 86399999999999 else 86400000000000)"

definition tasks_midnight :: "task list" where
  "tasks_midnight =
     [\<lparr>row_aircraft_id = ''AIR-1001'', schedule_start = 0, schedule_end = 172800000000000,
       row_part_id = None, part_quantity = 0, cost = 0, status = ''SCHEDULED''\<rparr>]"

section \<open>Properties\<close>

lemma pow2_pos: "0 < pow2 k"
  by (simp add: pow2_def)

lemma pow2_add: "pow2 (a + b) = pow2 a * pow2 b"
  by (simp add: pow2_def power_int_add)

lemma pow2_mono: "a \<le> b \<Longrightarrow> pow2 a \<le> pow2 b"
  by (simp add: pow2_def power_int_increasing)

lemma pow2_strict_mono: "a < b \<Longrightarrow> pow2 a < pow2 b"
  by (simp add: pow2_def power_int_strict_increasing)

lemma pow2_less_iff: "pow2 a < pow2 b \<longleftrightarrow> a < b"
  using pow2_mono [of b a] pow2_strict_mono [of a b] by (auto simp: not_less [symmetric])

lemma pow2_nat: "0 \<le> k \<Longrightarrow> pow2 k = 2 ^ nat k"
  by (simp add: pow2_def power_int_def)

lemma round_half_even_of_int: "round_half_even (of_int n) = n"
  by (simp add: round_half_even_def)

lemma round_half_even_mono:
  assumes "x \<le> y" shows "round_half_even x \<le> round_half_even y"
proof (cases "\<lfloor>x\<rfloor> = \<lfloor>y\<rfloor>")
  case True
  with assms show ?thesis
    by (auto simp: round_half_even_def Let_def)
next
  case False
  with assms have lt: "\<lfloor>x\<rfloor> + 1 \<le> \<lfloor>y\<rfloor>"
    using floor_mono [OF assms] by linarith
  have "round_half_even x \<le> \<lfloor>x\<rfloor> + 1"
    by (auto simp: round_half_even_def Let_def)
  moreover have "\<lfloor>y\<rfloor> \<le> round_half_even y"
    by (auto simp: round_half_even_def Let_def)
  ultimately show ?thesis using lt by linarith
qed

lemma binade_bounds:
  assumes "0 < x"
  shows "pow2 (binade x) \<le> x" and "x < pow2 (binade x + 1)"
proof -
  obtain p q where pq: "quotient_of x = (p, q)" by (cases "quotient_of x")
  then have q: "0 < q" and x: "x = of_int p / of_int q"
    using quotient_of_denom_pos quotient_of_div by auto
  with assms have p: "0 < p"
    by (simp add: zero_less_divide_iff)
  define bp where "bp = bitlen p"
  define bq where "bq = bitlen q"
  have bp1: "1 \<le> bp" and bq1: "1 \<le> bq"
    using p q bitlen_eq_zero_iff [of p] bitlen_eq_zero_iff [of q] bitlen_nonneg [of p] bitlen_nonneg [of q]
    unfolding bp_def bq_def by linarith+
  have "2 ^ nat (bp - 1) \<le> p" "p < 2 ^ nat bp" "2 ^ nat (bq - 1) \<le> q" "q < 2 ^ nat bq"
    using bitlen_bounds [OF p] bitlen_bounds [OF q] unfolding bp_def bq_def by auto
  then have "(of_int (2 ^ nat (bp - 1)) :: rat) \<le> of_int p" "(of_int p :: rat) < of_int (2 ^ nat bp)"
     "(of_int (2 ^ nat (bq - 1)) :: rat) \<le> of_int q" "(of_int q :: rat) < of_int (2 ^ nat bq)"
    by (simp_all only: of_int_le_iff of_int_less_iff)
  then have P: "pow2 (bp - 1) \<le> of_int p" "of_int p < pow2 bp"
    and Q: "pow2 (bq - 1) \<le> of_int q" "of_int q < pow2 bq"
    using bp1 bq1 by (simp_all add: pow2_nat)
  have qpos: "(0::rat) < of_int q" using q by simp
  have up: "x < pow2 (bp - bq + 1)"
  proof -
    have "x * pow2 (bq - 1) \<le> x * of_int q"
      using Q(1) assms by (simp add: mult_left_mono)
    also have "\<dots> = of_int p" using x qpos by simp
    also have "\<dots> < pow2 bp" by (rule P(2))
    also have "\<dots> = pow2 (bp - bq + 1) * pow2 (bq - 1)"
      by (simp flip: pow2_add)
    finally show ?thesis using pow2_pos [of "bq - 1"] by simp
  qed
  have lo: "pow2 (bp - bq - 1) < x"
  proof -
    have "pow2 (bp - bq - 1) * of_int q < pow2 (bp - bq - 1) * pow2 bq"
      using Q(2) pow2_pos [of "bp - bq - 1"] by (simp add: mult_strict_left_mono)
    also have "\<dots> = pow2 (bp - 1)" by (simp flip: pow2_add)
    also have "\<dots> \<le> of_int p" by (rule P(1))
    also have "\<dots> = x * of_int q" using x qpos by simp
    finally show ?thesis using qpos by simp
  qed
  have b: "binade x = (if pow2 (bp - bq) \<le> x then bp - bq else bp - bq - 1)"
    by (simp add: binade_def pq bp_def bq_def Let_def)
  show "pow2 (binade x) \<le> x"
    using lo by (simp add: b)
  show "x < pow2 (binade x + 1)"
    using up by (auto simp add: b not_le)
qed

lemma binade_mono:
  assumes "0 < x" "x \<le> y" shows "binade x \<le> binade y"
proof -
  have "pow2 (binade x) \<le> x" using binade_bounds(1) [OF assms(1)] .
  also have "x \<le> y" by fact
  also have "y < pow2 (binade y + 1)" using binade_bounds(2) [of y] assms by simp
  finally show ?thesis by (simp add: pow2_less_iff)
qed

lemma rd_pos:
  "0 < x \<Longrightarrow> rd x = of_int (round_half_even (x / pow2 (binade x - 52))) * pow2 (binade x - 52)"
  by (simp add: rd_def Let_def)

lemma rd_pos_bounds:
  assumes "0 < x"
  shows "pow2 (binade x) \<le> rd x" and "rd x \<le> pow2 (binade x + 1)"
proof -
  define u where "u = pow2 (binade x - 52)"
  have u: "0 < u" by (simp add: u_def pow2_pos)
  have b1: "pow2 (binade x) = pow2 52 * u" and b2: "pow2 (binade x + 1) = pow2 53 * u"
    by (simp_all add: u_def add.commute flip: pow2_add)
  have p52: "pow2 52 = of_int (2 ^ 52)" and p53: "pow2 53 = of_int (2 ^ 53)"
    by (simp_all add: pow2_def)
  have "of_int (2 ^ 52) \<le> x / u"
    using binade_bounds(1) [OF assms] u by (simp add: b1 p52 pos_le_divide_eq)
  then have "round_half_even (of_int (2 ^ 52)) \<le> round_half_even (x / u)"
    by (rule round_half_even_mono)
  then have "(of_int (2 ^ 52) :: rat) \<le> of_int (round_half_even (x / u))"
    by (simp only: round_half_even_of_int of_int_le_iff)
  then have "of_int (2 ^ 52) * u \<le> of_int (round_half_even (x / u)) * u"
    using u by (simp only: mult_le_cancel_right_pos)
  then show "pow2 (binade x) \<le> rd x"
    using assms by (simp only: rd_pos b1 p52 u_def)
  have "x / u \<le> of_int (2 ^ 53)"
    using binade_bounds(2) [OF assms] u by (simp add: b2 p53 pos_divide_le_eq)
  then have "round_half_even (x / u) \<le> round_half_even (of_int (2 ^ 53))"
    by (rule round_half_even_mono)
  then have "(of_int (round_half_even (x / u)) :: rat) \<le> of_int (2 ^ 53)"
    by (simp only: round_half_even_of_int of_int_le_iff)
  then have "of_int (round_half_even (x / u)) * u \<le> of_int (2 ^ 53) * u"
    using u by (simp only: mult_le_cancel_right_pos)
  then show "rd x \<le> pow2 (binade x + 1)"
    using assms by (simp only: rd_pos b2 p53 u_def)
qed

lemma rd_mono_pos:
  assumes "0 < x" "x \<le> y" shows "rd x \<le> rd y"
proof (cases "binade x = binade y")
  case True
  define u where "u = pow2 (binade y - 52)"
  have u: "0 < u" by (simp add: u_def pow2_pos)
  have "x / u \<le> y / u" using assms u by (simp add: divide_right_mono)
  then have "round_half_even (x / u) \<le> round_half_even (y / u)"
    by (rule round_half_even_mono)
  then have "(of_int (round_half_even (x / u)) :: rat) * u \<le> of_int (round_half_even (y / u)) * u"
    using u by (simp only: mult_le_cancel_right_pos of_int_le_iff)
  then show ?thesis using assms True by (simp add: rd_pos u_def)
next
  case False
  have y: "0 < y" using assms by simp
  from False binade_mono [OF assms] have "binade x + 1 \<le> binade y" by simp
  then have "pow2 (binade x + 1) \<le> pow2 (binade y)" by (rule pow2_mono)
  with rd_pos_bounds(2) [OF assms(1)] rd_pos_bounds(1) [OF y] show ?thesis by linarith
qed

lemma rd_minus: "rd (- x) = - rd x"
  by (simp add: rd_def Let_def)

lemma rd_pos_pos: "0 < x \<Longrightarrow> 0 < rd x"
  using rd_pos_bounds(1) [of x] pow2_pos [of "binade x"] by linarith

lemma rd_zero: "rd 0 = 0"
  by (simp add: rd_def)

lemma rd_mono:
  assumes "x \<le> y" shows "rd x \<le> rd y"
proof -
  consider "0 < x" | "x = 0" "y = 0" | "x = 0" "0 < y" | "x < 0" "0 \<le> y" | "x < 0" "y < 0"
    using assms by linarith
  then show ?thesis
  proof cases
    case 1 then show ?thesis using assms by (rule rd_mono_pos)
  next
    case 2 then show ?thesis by simp
  next
    case 3 then show ?thesis using rd_pos_pos [of y] by (simp add: rd_zero)
  next
    case 4
    have "rd x < 0" using rd_pos_pos [of "- x"] 4 by (simp add: rd_minus)
    moreover have "0 \<le> rd y"
      using rd_pos_pos [of y] 4 by (cases "y = 0") (simp_all add: rd_zero less_imp_le)
    ultimately show ?thesis by linarith
  next
    case 5
    have "rd (- y) \<le> rd (- x)" using 5 assms by (intro rd_mono_pos) simp_all
    then show ?thesis by (simp add: rd_minus)
  qed
qed

lemma rd_nonpos: "x \<le> 0 \<Longrightarrow> rd x \<le> 0"
  using rd_mono [of x 0] by (simp add: rd_zero)

lemma py_int_mono:
  assumes "x \<le> y" shows "py_int x \<le> py_int y"
proof -
  consider "0 \<le> x" | "x < 0" "0 \<le> y" | "y < 0" using assms by linarith
  then show ?thesis
  proof cases
    case 1 then show ?thesis using assms by (simp add: py_int_def floor_mono)
  next
    case 2
    then have "\<lceil>x\<rceil> \<le> 0" "0 \<le> \<lfloor>y\<rfloor>" by (simp_all add: ceiling_le_iff)
    moreover have "py_int x = \<lceil>x\<rceil>" "py_int y = \<lfloor>y\<rfloor>"
      using 2 by (simp_all add: py_int_def)
    ultimately show ?thesis by linarith
  next
    case 3 then show ?thesis using assms by (simp add: py_int_def ceiling_mono)
  qed
qed

lemma py_int_nonpos: "x \<le> 0 \<Longrightarrow> py_int x \<le> 0"
  using py_int_mono [of x 0] by (simp add: py_int_def)

text \<open>The weight of a row falls as its hours until due rise.\<close>

lemma row_weight_mono:
  assumes "0 < mh" "hours_until_due a1 \<le> hours_until_due a2"
    "row_weight mh a1 = Inr w1" "row_weight mh a2 = Inr w2"
  shows "w2 \<le> w1"
proof -
  have "(of_int (mh - hours_until_due a2) :: rat) / of_int mh
          \<le> of_int (mh - hours_until_due a1) / of_int mh"
    using assms(1,2) by (simp add: divide_right_mono)
  then have "rd (of_int (mh - hours_until_due a2) / of_int mh)
               \<le> rd (of_int (mh - hours_until_due a1) / of_int mh)"
    by (rule rd_mono)
  then have "rd (of_int (mh - hours_until_due a2) / of_int mh) * 100
               \<le> rd (of_int (mh - hours_until_due a1) / of_int mh) * 100"
    by simp
  then have "py_int (fmul (rd (of_int (mh - hours_until_due a2) / of_int mh)) 100)
               \<le> py_int (fmul (rd (of_int (mh - hours_until_due a1) / of_int mh)) 100)"
    unfolding fmul_def by (intro py_int_mono rd_mono)
  with assms show ?thesis
    by (auto simp: row_weight_def truediv_def Let_def split: if_splits)
qed

lemma row_weight_neg_max:
  assumes "mh < 0" "hours_until_due a \<le> mh" "row_weight mh a = Inr w"
  shows "w = 1"
proof -
  have "(of_int (mh - hours_until_due a) :: rat) / of_int mh \<le> 0"
    using assms(1,2) by (simp add: divide_le_0_iff)
  then have "rd (of_int (mh - hours_until_due a) / of_int mh) \<le> 0"
    by (rule rd_nonpos)
  then have "rd (of_int (mh - hours_until_due a) / of_int mh) * 100 \<le> 0"
    by (simp add: mult_le_0_iff)
  then have "py_int (fmul (rd (of_int (mh - hours_until_due a) / of_int mh)) 100) \<le> 0"
    unfolding fmul_def by (intro py_int_nonpos rd_nonpos)
  with assms show ?thesis
    by (auto simp: row_weight_def truediv_def Let_def split: if_splits)
qed

lemma max_hours_ge: "a \<in> set fleet \<Longrightarrow> hours_until_due a \<le> max_hours fleet"
  by (auto simp: max_hours_def)

lemma mapM_Inr_iff: "mapM f xs = Inr ys \<longleftrightarrow> list_all2 (\<lambda>x y. f x = Inr y) xs ys"
proof (induction xs arbitrary: ys)
  case Nil
  then show ?case by auto
next
  case (Cons x xs)
  show ?case
    by (cases ys) (auto simp: Cons.IH [symmetric] split: sum.splits)
qed

lemma mapM_total:
  assumes "\<And>x. x \<in> set xs \<Longrightarrow> \<exists>y. f x = Inr y"
  shows "\<exists>ys. mapM f xs = Inr ys"
  using assms
proof (induction xs)
  case Nil
  then show ?case by simp
next
  case (Cons x xs)
  then obtain y ys where "f x = Inr y" "mapM f xs = Inr ys"
    by (meson list.set_intros)
  then show ?case by simp
qed

lemma set_py_range: "d \<in> set (py_range n) \<longleftrightarrow> 0 \<le> d \<and> d < n"
proof
  assume "d \<in> set (py_range n)"
  then show "0 \<le> d \<and> d < n" by (auto simp: py_range_def)
next
  assume d: "0 \<le> d \<and> d < n"
  then have "nat d \<in> {0..<nat n}" by auto
  then have "int (nat d) \<in> set (py_range n)" unfolding py_range_def by (simp del: int_nat_eq)
  with d show "d \<in> set (py_range n)" by simp
qed

lemma add_variables_snoc:
  "add_variables cfg (als @ [a]) = add_aircraft cfg (length als, a) (add_variables cfg als)"
  by (simp add: add_variables_def enumerate_append_eq)

lemma fold_day_upd:
  "fold (\<lambda>d m. m((aid, d) \<mapsto> On i d)) days m0 (a, d') =
     (if a = aid \<and> d' \<in> set days then Some (On i d') else m0 (a, d'))"
  by (induction days arbitrary: m0) auto

lemma add_variables_dicts:
  assumes "aid \<in> set als"
  shows "\<exists>i<length als. als ! i = aid
           \<and> start_day (add_variables cfg als) aid = Some (Start i)
           \<and> duration (add_variables cfg als) aid = Some (Dur i)
           \<and> (\<forall>d\<in>set (py_range (PLANNING_HORIZON_DAYS cfg)).
                 is_scheduled_on_day (add_variables cfg als) (aid, d) = Some (On i d))"
  using assms
proof (induction als rule: rev_induct)
  case Nil
  then show ?case by simp
next
  case (snoc a als)
  show ?case
  proof (cases "a = aid")
    case True
    then show ?thesis
      by (intro exI [of _ "length als"])
        (simp add: add_variables_snoc add_aircraft_def Let_def fold_day_upd)
  next
    case False
    with snoc.prems have "aid \<in> set als" by simp
    from snoc.IH [OF this] obtain i where i: "i < length als" "als ! i = aid"
      "start_day (add_variables cfg als) aid = Some (Start i)"
      "duration (add_variables cfg als) aid = Some (Dur i)"
      "\<forall>d\<in>set (py_range (PLANNING_HORIZON_DAYS cfg)).
          is_scheduled_on_day (add_variables cfg als) (aid, d) = Some (On i d)"
      by blast
    with False show ?thesis
      by (intro exI [of _ i])
        (simp add: add_variables_snoc add_aircraft_def Let_def fold_day_upd nth_append)
  qed
qed

lemma add_variables_start_day_distinct:
  assumes "distinct als" "i < length als"
  shows "start_day (add_variables cfg als) (als ! i) = Some (Start i)"
proof -
  from add_variables_dicts [of "als ! i" als cfg] assms(2)
  obtain j where j: "j < length als" "als ! j = als ! i"
    "start_day (add_variables cfg als) (als ! i) = Some (Start j)"
    by auto
  with assms have "j = i" by (simp add: nth_eq_iff_index_eq)
  with j show ?thesis by simp
qed

lemma add_variables_constraints:
  assumes "i < length als" "d \<in> set (py_range (PLANNING_HORIZON_DAYS cfg))"
  shows "set (link_day i d) \<subseteq> set (constraints (model (add_variables cfg als)))"
  using assms
proof (induction als rule: rev_induct)
  case Nil
  then show ?case by simp
next
  case (snoc a als)
  show ?case
  proof (cases "i < length als")
    case True
    with snoc show ?thesis
      by (auto simp add: add_variables_snoc add_aircraft_def Let_def)
  next
    case False
    with snoc.prems have "i = length als" by simp
    with snoc.prems show ?thesis
      by (auto simp add: add_variables_snoc add_aircraft_def Let_def)
  qed
qed

lemma add_variables_on_domain:
  assumes "i < length als" "d \<in> set (py_range (PLANNING_HORIZON_DAYS cfg))"
  shows "(On i d, 0, 1) \<in> set (variables (model (add_variables cfg als)))"
  using assms
proof (induction als rule: rev_induct)
  case Nil
  then show ?case by simp
next
  case (snoc a als)
  show ?case
  proof (cases "i < length als")
    case True
    with snoc show ?thesis
      by (auto simp add: add_variables_snoc add_aircraft_def Let_def)
  next
    case False
    with snoc.prems have "i = length als" by simp
    with snoc.prems show ?thesis
      by (auto simp add: add_variables_snoc add_aircraft_def Let_def)
  qed
qed

lemma add_variables_int_domains:
  assumes "i < length als"
  shows "(Start i, 0, PLANNING_HORIZON_DAYS cfg - 1) \<in> set (variables (model (add_variables cfg als)))"
    and "(Dur i, MAINT_DURATION_MIN cfg, MAINT_DURATION_MAX cfg)
           \<in> set (variables (model (add_variables cfg als)))"
  using assms
proof (induction als rule: rev_induct)
  case Nil
  { case 1 then show ?case by simp }
  { case 2 then show ?case by simp }
next
  case (snoc a als)
  { case 1
    then show ?case using snoc(1)
      by (cases "i < length als") (auto simp add: add_variables_snoc add_aircraft_def Let_def less_Suc_eq) }
  { case 2
    then show ?case using snoc(2)
      by (cases "i < length als") (auto simp add: add_variables_snoc add_aircraft_def Let_def less_Suc_eq) }
qed

text \<open>What the six linking constraints of a day mean.\<close>

lemma link_day_sound:
  assumes "\<forall>c\<in>set (link_day i d). constraint_holds \<sigma> c"
    and "0 \<le> \<sigma> (On i d)" "\<sigma> (On i d) \<le> 1"
  shows "\<sigma> (On i d) = 1 \<longleftrightarrow> \<sigma> (Start i) \<le> d \<and> d < \<sigma> (Start i) + \<sigma> (Dur i)"
proof
  assume "\<sigma> (On i d) = 1"
  with assms(1) show "\<sigma> (Start i) \<le> d \<and> d < \<sigma> (Start i) + \<sigma> (Dur i)"
    by (simp add: link_day_def lin_value_def)
next
  assume w: "\<sigma> (Start i) \<le> d \<and> d < \<sigma> (Start i) + \<sigma> (Dur i)"
  show "\<sigma> (On i d) = 1"
  proof (rule ccontr)
    assume "\<sigma> (On i d) \<noteq> 1"
    with assms(2,3) have "\<sigma> (On i d) = 0" by linarith
    with assms(1) w show False
      by (auto simp add: link_day_def lin_value_def)
  qed
qed

lemma add_capacity_Inr:
  assumes "add_capacity cfg b als = Inr b'"
  shows "start_day b' = start_day b" "duration b' = duration b"
    "is_scheduled_on_day b' = is_scheduled_on_day b"
    "variables (model b') = variables (model b)"
    "\<exists>cs. constraints (model b') = constraints (model b) @ cs
       \<and> list_all2 (\<lambda>d c. capacity_constraint cfg b als d = Inr c)
            (py_range (PLANNING_HORIZON_DAYS cfg)) cs"
  using assms by (auto simp: add_capacity_def mapM_Inr_iff split: sum.splits)

lemma build_model_Inr:
  assumes "build_model cfg fleet = Inr b"
  obtains b1 weights terms where
    "add_capacity cfg (add_variables cfg (map aircraft_id fleet)) (map aircraft_id fleet) = Inr b1"
    "compute_weights (max_hours fleet) fleet Map.empty = Inr weights"
    "mapM (objective_term b1 weights) (map aircraft_id fleet) = Inr terms"
    "b = b1\<lparr>model := (model b1)\<lparr>objective := terms\<rparr>\<rparr>"
  using assms by (auto simp: build_model_def Let_def split: sum.splits)

lemma build_model_dicts:
  assumes "build_model cfg fleet = Inr b"
  shows "start_day b = start_day (add_variables cfg (map aircraft_id fleet))"
    "duration b = duration (add_variables cfg (map aircraft_id fleet))"
    "is_scheduled_on_day b = is_scheduled_on_day (add_variables cfg (map aircraft_id fleet))"
  using assms by (auto elim!: build_model_Inr dest: add_capacity_Inr(1,2,3))

lemma build_model_variables:
  assumes "build_model cfg fleet = Inr b"
  shows "variables (model b) = variables (model (add_variables cfg (map aircraft_id fleet)))"
  using assms by (auto elim!: build_model_Inr dest: add_capacity_Inr(4))

lemma build_model_constraints:
  assumes "build_model cfg fleet = Inr b"
  shows "\<exists>cs. constraints (model b)
           = constraints (model (add_variables cfg (map aircraft_id fleet))) @ cs
       \<and> list_all2 (\<lambda>d c. capacity_constraint cfg (add_variables cfg (map aircraft_id fleet))
                            (map aircraft_id fleet) d = Inr c)
            (py_range (PLANNING_HORIZON_DAYS cfg)) cs"
  using assms by (auto elim!: build_model_Inr dest: add_capacity_Inr(5))

lemma feasible_in_domain:
  "feasible \<sigma> m \<Longrightarrow> (v, lo, hi) \<in> set (variables m) \<Longrightarrow> lo \<le> \<sigma> v \<and> \<sigma> v \<le> hi"
  by (auto simp: feasible_def list_all_iff)

lemma feasible_constraint:
  "feasible \<sigma> m \<Longrightarrow> c \<in> set (constraints m) \<Longrightarrow> constraint_holds \<sigma> c"
  by (auto simp: feasible_def list_all_iff)

text \<open>In a feasible solution the occupancy variable of a day is the window test.\<close>

lemma feasible_on:
  assumes b: "build_model cfg fleet = Inr b" and f: "feasible \<sigma> (model b)"
    and i: "i < length fleet" and d: "0 \<le> d" "d < PLANNING_HORIZON_DAYS cfg"
  shows "\<sigma> (On i d) = (if covers d (\<sigma> (Start i), \<sigma> (Dur i)) then 1 else 0)"
proof -
  let ?als = "map aircraft_id fleet"
  have dr: "d \<in> set (py_range (PLANNING_HORIZON_DAYS cfg))"
    using d by (simp add: set_py_range)
  have il: "i < length ?als" using i by simp
  have "(On i d, 0, 1) \<in> set (variables (model b))"
    using add_variables_on_domain [OF il dr] by (simp add: build_model_variables [OF b])
  from feasible_in_domain [OF f this] have dom: "0 \<le> \<sigma> (On i d)" "\<sigma> (On i d) \<le> 1"
    by simp_all
  have "set (link_day i d) \<subseteq> set (constraints (model b))"
    using add_variables_constraints [OF il dr] build_model_constraints [OF b] by auto
  with f have "\<forall>c\<in>set (link_day i d). constraint_holds \<sigma> c"
    by (auto dest: feasible_constraint)
  from link_day_sound [OF this dom] dom show ?thesis
    by (auto simp: covers_def)
qed

lemma build_A: "build_model module_config fleet_A = Inr builder_A"
proof -
  have "case build_model module_config fleet_A of Inl e \<Rightarrow> False | Inr b \<Rightarrow> True"
    by code_simp
  then show ?thesis
    by (simp add: builder_A_def split: sum.splits)
qed

lemma feasible_A: "feasible (window_assignment windows_A) (model builder_A)"
  unfolding builder_A_def by code_simp

text \<open>
  C2. In every feasible solution of the built model, for every aircraft of the fleet and
  every day of the horizon, the Boolean looked up in \<open>is_scheduled_on_day\<close> is 0 or 1, and
  it is 1 exactly when the start day is at most the day and the start day plus the
  duration is beyond it.
\<close>

theorem linking_is_bidirectional:
  assumes "build_model cfg fleet = Inr b" and "feasible \<sigma> (model b)"
    and "a \<in> set fleet" and "0 \<le> d" and "d < PLANNING_HORIZON_DAYS cfg"
  shows "\<exists>ov sv dv. is_scheduled_on_day b (aircraft_id a, d) = Some ov
           \<and> start_day b (aircraft_id a) = Some sv
           \<and> duration b (aircraft_id a) = Some dv
           \<and> (\<sigma> ov = 0 \<or> \<sigma> ov = 1)
           \<and> (\<sigma> ov = 1 \<longleftrightarrow> \<sigma> sv \<le> d \<and> d < \<sigma> sv + \<sigma> dv)"
proof -
  let ?als = "map aircraft_id fleet"
  have dr: "d \<in> set (py_range (PLANNING_HORIZON_DAYS cfg))"
    using assms(4,5) by (simp add: set_py_range)
  have "aircraft_id a \<in> set ?als" using assms(3) by simp
  from add_variables_dicts [OF this, of cfg] obtain i where i: "i < length ?als"
    and s: "start_day (add_variables cfg ?als) (aircraft_id a) = Some (Start i)"
    and du: "duration (add_variables cfg ?als) (aircraft_id a) = Some (Dur i)"
    and o: "\<forall>d\<in>set (py_range (PLANNING_HORIZON_DAYS cfg)).
              is_scheduled_on_day (add_variables cfg ?als) (aircraft_id a, d) = Some (On i d)"
    by blast
  have il: "i < length fleet" using i by simp
  have on: "\<sigma> (On i d) = (if covers d (\<sigma> (Start i), \<sigma> (Dur i)) then 1 else 0)"
    by (rule feasible_on [OF assms(1,2) il assms(4,5)])
  have "is_scheduled_on_day b (aircraft_id a, d) = Some (On i d)"
    "start_day b (aircraft_id a) = Some (Start i)"
    "duration b (aircraft_id a) = Some (Dur i)"
    using s du o dr by (simp_all add: build_model_dicts [OF assms(1)])
  moreover have "\<sigma> (On i d) = 0 \<or> \<sigma> (On i d) = 1" using on by simp
  moreover have "\<sigma> (On i d) = 1 \<longleftrightarrow> \<sigma> (Start i) \<le> d \<and> d < \<sigma> (Start i) + \<sigma> (Dur i)"
    using on by (simp add: covers_def)
  ultimately show ?thesis by blast
qed

theorem linking_is_bidirectional_witness:
  "build_model module_config fleet_A = Inr builder_A
   \<and> feasible (window_assignment windows_A) (model builder_A)
   \<and> fleet_A ! 1 \<in> set fleet_A \<and> (0::int) \<le> 1 \<and> 1 < PLANNING_HORIZON_DAYS module_config
   \<and> (\<exists>ov sv dv. is_scheduled_on_day builder_A (aircraft_id (fleet_A ! 1), 1) = Some ov
           \<and> start_day builder_A (aircraft_id (fleet_A ! 1)) = Some sv
           \<and> duration builder_A (aircraft_id (fleet_A ! 1)) = Some dv
           \<and> (window_assignment windows_A ov = 0 \<or> window_assignment windows_A ov = 1)
           \<and> (window_assignment windows_A ov = 1
                \<longleftrightarrow> window_assignment windows_A sv \<le> 1
                    \<and> 1 < window_assignment windows_A sv + window_assignment windows_A dv))"
proof -
  have m: "fleet_A ! 1 \<in> set fleet_A" by (simp add: fleet_A_def)
  have h: "1 < PLANNING_HORIZON_DAYS module_config" by (simp add: module_config_def)
  have z: "(0::int) \<le> 1" by simp
  from linking_is_bidirectional [OF build_A feasible_A m z h] build_A feasible_A m z h
  show ?thesis by blast
qed

text \<open>
  C9. Of two aircraft of a fleet, the one with fewer hours until due gets a weight at
  least as large as the other's, whenever the weights of line 90 are computed.
\<close>

theorem weight_monotone:
  assumes "a1 \<in> set fleet" and "a2 \<in> set fleet"
    and "hours_until_due a1 < hours_until_due a2"
    and "row_weight (max_hours fleet) a1 = Inr w1"
    and "row_weight (max_hours fleet) a2 = Inr w2"
  shows "w2 \<le> w1"
proof -
  consider "0 < max_hours fleet" | "max_hours fleet = 0" | "max_hours fleet < 0"
    by linarith
  then show ?thesis
  proof cases
    case 1
    then show ?thesis
      using row_weight_mono [OF _ _ assms(4,5)] assms(3) by simp
  next
    case 2
    with assms(4) show ?thesis
      by (simp add: row_weight_def truediv_def)
  next
    case 3
    have "w1 = 1" "w2 = 1"
      using row_weight_neg_max [OF 3 max_hours_ge [OF assms(1)] assms(4)]
        row_weight_neg_max [OF 3 max_hours_ge [OF assms(2)] assms(5)] by simp_all
    then show ?thesis by simp
  qed
qed

lemma max_hours_A: "max_hours fleet_A = 500"
  by (simp add: max_hours_def fleet_A_def)

lemma row_weight_A:
  "row_weight 500 (fleet_A ! 0) = Inr 98" "row_weight 500 (fleet_A ! 2) = Inr 90"
  by code_simp+

theorem weight_monotone_witness:
  "fleet_A ! 0 \<in> set fleet_A \<and> fleet_A ! 2 \<in> set fleet_A
   \<and> hours_until_due (fleet_A ! 0) < hours_until_due (fleet_A ! 2)
   \<and> row_weight (max_hours fleet_A) (fleet_A ! 0) = Inr 98
   \<and> row_weight (max_hours fleet_A) (fleet_A ! 2) = Inr 90
   \<and> (90::int) \<le> 98"
proof -
  have m: "fleet_A ! 0 \<in> set fleet_A" "fleet_A ! 2 \<in> set fleet_A"
    by (simp_all add: fleet_A_def)
  have h: "hours_until_due (fleet_A ! 0) < hours_until_due (fleet_A ! 2)"
    by (simp add: fleet_A_def)
  have w: "row_weight (max_hours fleet_A) (fleet_A ! 0) = Inr 98"
    "row_weight (max_hours fleet_A) (fleet_A ! 2) = Inr 90"
    by (simp_all only: max_hours_A row_weight_A)
  from weight_monotone [OF m h w] m h w show ?thesis by blast
qed

lemma randint_range:
  assumes "a \<le> b"
  shows "\<exists>q. randint rnd k a b = Inr q \<and> a \<le> q \<and> q \<le> b"
proof -
  define q where "q = a + int (rnd k) mod (b - a + 1)"
  have 1: "randint rnd k a b = Inr q"
    using assms by (simp add: randint_def q_def)
  have "int (rnd k) mod (b - a + 1) < b - a + 1"
    using assms by (intro pos_mod_bound) linarith
  moreover have "0 \<le> int (rnd k) mod (b - a + 1)"
    using assms by (intro pos_mod_sign) linarith
  ultimately have "a \<le> q" "q \<le> b"
    unfolding q_def by linarith+
  with 1 show ?thesis by blast
qed

lemma probe_result:
  "\<exists>st' pid q c. probe rnd st attempts = Inr (st', pid, q, c) \<and> ticks st' = ticks st
     \<and> (unallocated st st' pid q c \<or> (\<exists>j. allocated st st' pid q c j))"
proof (induction rnd st attempts rule: probe.induct)
  case (1 rnd st attempts)
  define n where "n = length (parts_copy st)"
  define idx where "idx = (if n \<le> part_idx st then 0 else part_idx st)"
  show ?case
  proof (cases "attempts < n")
    case False
    then show ?thesis
      by (subst probe.simps) (simp add: n_def unallocated_def)
  next
    case True
    then have idx: "idx < n" by (auto simp: idx_def)
    define prow where "prow = parts_copy st ! idx"
    have l: "loc (parts_copy st) idx = Inr prow"
      using idx by (simp add: loc_def n_def prow_def)
    show ?thesis
    proof (cases "0 < quantity_on_hand prow")
      case avail: True
      then have "1 \<le> min 3 (quantity_on_hand prow)" by simp
      from randint_range [OF this, of rnd "draws st"] obtain q
        where q: "randint rnd (draws st) 1 (min 3 (quantity_on_hand prow)) = Inr q"
          "1 \<le> q" "q \<le> min 3 (quantity_on_hand prow)"
        by blast
      have "probe rnd st attempts =
              Inr (st\<lparr>parts_copy := (parts_copy st)
                         [idx := prow\<lparr>quantity_on_hand := quantity_on_hand prow - q\<rparr>],
                       total_parts_available := total_parts_available st - q,
                       part_idx := (idx + 1) mod n,
                       draws := draws st + 1\<rparr>,
                   Some (part_id prow), q, fmul (unit_cost prow) (of_int q))"
        using True avail l q(1)
        by (subst probe.simps) (simp add: n_def [symmetric] idx_def [symmetric] Let_def)
      moreover have "allocated st
          (st\<lparr>parts_copy := (parts_copy st)
                 [idx := prow\<lparr>quantity_on_hand := quantity_on_hand prow - q\<rparr>],
               total_parts_available := total_parts_available st - q,
               part_idx := (idx + 1) mod n,
               draws := draws st + 1\<rparr>)
          (Some (part_id prow)) q (fmul (unit_cost prow) (of_int q)) idx"
        using idx q(2,3) by (simp add: allocated_def n_def prow_def)
      ultimately show ?thesis by auto
    next
      case noavail: False
      let ?st = "st\<lparr>part_idx := (idx + 1) mod n\<rparr>"
      have eq: "probe rnd st attempts = probe rnd ?st (attempts + 1)"
        using True noavail l
        by (subst probe.simps) (simp add: n_def [symmetric] idx_def [symmetric] Let_def)
      have "\<exists>st' pid q c. probe rnd ?st (attempts + 1) = Inr (st', pid, q, c)
              \<and> ticks st' = ticks ?st
              \<and> (unallocated ?st st' pid q c \<or> (\<exists>j. allocated ?st st' pid q c j))"
        using "1.IH" [of idx prow "quantity_on_hand prow"] True noavail l
        by (simp add: n_def idx_def)
      then show ?thesis
        unfolding eq by (simp add: unallocated_def allocated_def)
    qed
  qed
qed

lemma allocate_part_result:
  "\<exists>st' pid q c. allocate_part rnd st = Inr (st', pid, q, c) \<and> ticks st' = ticks st
     \<and> (unallocated st st' pid q c \<or> (\<exists>j. allocated st st' pid q c j))"
proof (cases "0 < total_parts_available st \<and> parts_copy st \<noteq> []")
  case True
  then show ?thesis using probe_result [of rnd st 0] by (simp add: allocate_part_def)
next
  case False
  then show ?thesis by (auto simp: allocate_part_def unallocated_def)
qed

lemma schedule_row_Inr:
  assumes "schedule_row rnd clk b \<sigma> st row = Inr (st', t)"
  obtains s dur st1 pid q c where
    "solved_window b \<sigma> row = Inr (s, dur)"
    "allocate_part rnd st = Inr (st1, pid, q, c)"
    "st' = st1\<lparr>ticks := ticks st1 + 2\<rparr>"
    "t = \<lparr>row_aircraft_id = aircraft_id row,
          schedule_start = normalize_ts (clk (ticks st1)) + Timedelta s,
          schedule_end = normalize_ts (clk (ticks st1 + 1)) + Timedelta (s + dur),
          row_part_id = pid, part_quantity = q, cost = c, status = ''SCHEDULED''\<rparr>"
  using assms by (auto simp: schedule_row_def split: sum.splits prod.splits)

lemma schedule_row_total:
  assumes "solved_window b \<sigma> row = Inr w"
  shows "\<exists>st' t. schedule_row rnd clk b \<sigma> st row = Inr (st', t)"
proof -
  obtain st1 pid q c where "allocate_part rnd st = Inr (st1, pid, q, c)"
    using allocate_part_result [of rnd st] by blast
  with assms show ?thesis
    by (cases w) (simp add: schedule_row_def)
qed

lemma schedule_rows_total:
  assumes "\<And>row. row \<in> set rows \<Longrightarrow> \<exists>w. solved_window b \<sigma> row = Inr w"
  shows "\<exists>st' ts. schedule_rows rnd clk b \<sigma> st rows = Inr (st', ts)"
  using assms
proof (induction rows arbitrary: st)
  case Nil
  then show ?case by simp
next
  case (Cons row rows)
  from Cons.prems obtain w where "solved_window b \<sigma> row = Inr w"
    by (meson list.set_intros)
  from schedule_row_total [OF this] obtain st1 t
    where 1: "schedule_row rnd clk b \<sigma> st row = Inr (st1, t)" by blast
  from Cons.IH [of st1] Cons.prems obtain st2 ts
    where 2: "schedule_rows rnd clk b \<sigma> st1 rows = Inr (st2, ts)" by auto
  from 1 2 show ?case by simp
qed

lemma schedule_rows_Cons_Inr:
  assumes "schedule_rows rnd clk b \<sigma> st (row # rows) = Inr (st', ts)"
  shows "\<exists>st1 t ts'. schedule_row rnd clk b \<sigma> st row = Inr (st1, t)
           \<and> schedule_rows rnd clk b \<sigma> st1 rows = Inr (st', ts') \<and> ts = t # ts'"
  using assms by (auto split: sum.splits prod.splits)

lemma schedule_rows_length:
  "schedule_rows rnd clk b \<sigma> st rows = Inr (st', ts) \<Longrightarrow> length ts = length rows"
proof (induction rows arbitrary: st ts)
  case Nil
  then show ?case by simp
next
  case (Cons row rows)
  from schedule_rows_Cons_Inr [OF Cons.prems] obtain st1 t ts'
    where "schedule_rows rnd clk b \<sigma> st1 rows = Inr (st', ts')" "ts = t # ts'"
    by blast
  then show ?case by (simp add: Cons.IH)
qed

lemma schedule_rows_append:
  assumes "schedule_rows rnd clk b \<sigma> st xs = Inr (st1, ts1)"
    and "schedule_rows rnd clk b \<sigma> st1 ys = Inr (st2, ts2)"
  shows "schedule_rows rnd clk b \<sigma> st (xs @ ys) = Inr (st2, ts1 @ ts2)"
  using assms
proof (induction xs arbitrary: st ts1)
  case Nil
  then show ?case by simp
next
  case (Cons x xs)
  from schedule_rows_Cons_Inr [OF Cons.prems(1)] obtain st' t ts'
    where 1: "schedule_row rnd clk b \<sigma> st x = Inr (st', t)"
      and 2: "schedule_rows rnd clk b \<sigma> st' xs = Inr (st1, ts')" and 3: "ts1 = t # ts'"
    by blast
  from Cons.IH [OF 2 Cons.prems(2)] 1 3 show ?case by simp
qed

lemma schedule_rows_split:
  assumes "schedule_rows rnd clk b \<sigma> st (xs @ ys) = Inr (st2, ts)"
  shows "\<exists>st1 ts1 ts2. schedule_rows rnd clk b \<sigma> st xs = Inr (st1, ts1)
           \<and> schedule_rows rnd clk b \<sigma> st1 ys = Inr (st2, ts2) \<and> ts = ts1 @ ts2"
  using assms
proof (induction xs arbitrary: st ts)
  case Nil
  then show ?case by simp
next
  case (Cons x xs)
  from Cons.prems have "schedule_rows rnd clk b \<sigma> st (x # (xs @ ys)) = Inr (st2, ts)"
    by simp
  from schedule_rows_Cons_Inr [OF this]
  obtain st' t ts' where 1: "schedule_row rnd clk b \<sigma> st x = Inr (st', t)"
    and 2: "schedule_rows rnd clk b \<sigma> st' (xs @ ys) = Inr (st2, ts')" and 3: "ts = t # ts'"
    by blast
  from Cons.IH [OF 2] obtain st1 ts1 ts2
    where "schedule_rows rnd clk b \<sigma> st' xs = Inr (st1, ts1)"
      "schedule_rows rnd clk b \<sigma> st1 ys = Inr (st2, ts2)" "ts' = ts1 @ ts2"
    by blast
  with 1 3 show ?case by simp
qed

text \<open>The state before the \<open>k\<close>-th task and the step that emits it.\<close>

lemma schedule_rows_nth:
  assumes "schedule_rows rnd clk b \<sigma> st rows = Inr (st', ts)" and "k < length rows"
  shows "\<exists>stk stk'. schedule_rows rnd clk b \<sigma> st (take k rows) = Inr (stk, take k ts)
           \<and> schedule_row rnd clk b \<sigma> stk (rows ! k) = Inr (stk', ts ! k)"
proof -
  have rows: "rows = take k rows @ (rows ! k # drop (Suc k) rows)"
    using assms(2) by (simp add: id_take_nth_drop [symmetric])
  from assms(1) have "schedule_rows rnd clk b \<sigma> st (take k rows @ (rows ! k # drop (Suc k) rows))
      = Inr (st', ts)"
    using rows by simp
  from schedule_rows_split [OF this] obtain stk ts1 ts2
    where 1: "schedule_rows rnd clk b \<sigma> st (take k rows) = Inr (stk, ts1)"
      and 2: "schedule_rows rnd clk b \<sigma> stk (rows ! k # drop (Suc k) rows) = Inr (st', ts2)"
      and 3: "ts = ts1 @ ts2"
    by blast
  from schedule_rows_Cons_Inr [OF 2]
  obtain stk' t ts' where 4: "schedule_row rnd clk b \<sigma> stk (rows ! k) = Inr (stk', t)"
    and 5: "ts2 = t # ts'"
    by blast
  have "length ts1 = k"
    using schedule_rows_length [OF 1] assms(2) by simp
  with 3 5 have "take k ts = ts1" "ts ! k = t" by (simp_all add: nth_append)
  with 1 4 show ?thesis by auto
qed

lemma schedule_rows_prefix:
  assumes "schedule_rows rnd clk b \<sigma> st rows = Inr (st', ts)" and "k \<le> length rows"
  shows "\<exists>stk. schedule_rows rnd clk b \<sigma> st (take k rows) = Inr (stk, take k ts)"
proof -
  from assms(1) have "schedule_rows rnd clk b \<sigma> st (take k rows @ drop k rows) = Inr (st', ts)"
    by simp
  from schedule_rows_split [OF this] obtain stk ts1 ts2
    where 1: "schedule_rows rnd clk b \<sigma> st (take k rows) = Inr (stk, ts1)"
      and 3: "ts = ts1 @ ts2"
    by blast
  have "length ts1 = k"
    using schedule_rows_length [OF 1] assms(2) by simp
  with 3 have "take k ts = ts1" by simp
  with 1 show ?thesis by auto
qed

lemma generate_schedule_Inr:
  assumes "generate_schedule cfg solver sort_values rnd clk fleet parts = Inr tasks"
  obtains b st \<sigma> st' where "build_model cfg fleet = Inr b" "solver (model b) = (st, \<sigma>)"
    "st = OPTIMAL \<or> st = FEASIBLE"
    "schedule_rows rnd clk b \<sigma> (initial_state sort_values parts) fleet = Inr (st', tasks)"
  using assms
  by (auto simp: generate_schedule_def split: sum.splits prod.splits if_splits)

lemma solved_window_built:
  assumes "build_model cfg fleet = Inr b" and "a \<in> set fleet"
  shows "\<exists>i<length fleet. solved_window b \<sigma> a = Inr (\<sigma> (Start i), \<sigma> (Dur i))
           \<and> (\<forall>d\<in>set (py_range (PLANNING_HORIZON_DAYS cfg)).
                 lookup (is_scheduled_on_day b) (aircraft_id a, d) = Inr (On i d))"
proof -
  have "aircraft_id a \<in> set (map aircraft_id fleet)" using assms(2) by simp
  from add_variables_dicts [OF this, of cfg] show ?thesis
    by (auto simp: solved_window_def lookup_def build_model_dicts [OF assms(1)])
qed

lemma lin_value_occupancy:
  assumes "list_all2 (\<lambda>v w. \<sigma> v = (if covers d w then 1 else 0)) vs ws"
  shows "lin_value \<sigma> (map (\<lambda>v. (1, v)) vs) = int (occupancy ws d)"
  using assms by (induction rule: list_all2_induct) (auto simp: lin_value_def occupancy_def)

lemma capacity_constraint_built:
  assumes b: "build_model cfg fleet = Inr b" and f: "feasible \<sigma> (model b)"
    and d: "d \<in> set (py_range (PLANNING_HORIZON_DAYS cfg))"
    and vs: "mapM (\<lambda>aid. lookup (is_scheduled_on_day b) (aid, d)) (map aircraft_id fleet) = Inr vs"
  shows "lin_value \<sigma> (map (\<lambda>v. (1, v)) vs) \<le> CREW_AVAILABLE cfg"
proof -
  let ?als = "map aircraft_id fleet"
  let ?b0 = "add_variables cfg ?als"
  from build_model_constraints [OF b] obtain cs
    where cs: "constraints (model b) = constraints (model ?b0) @ cs"
      and all: "list_all2 (\<lambda>d c. capacity_constraint cfg ?b0 ?als d = Inr c)
                  (py_range (PLANNING_HORIZON_DAYS cfg)) cs"
    by blast
  from d obtain n where n: "n < length (py_range (PLANNING_HORIZON_DAYS cfg))"
    "py_range (PLANNING_HORIZON_DAYS cfg) ! n = d"
    by (auto simp: in_set_conv_nth)
  with all have c: "capacity_constraint cfg ?b0 ?als d = Inr (cs ! n)" and nl: "n < length cs"
    by (auto simp: list_all2_conv_all_nth)
  have "mapM (\<lambda>aid. lookup (is_scheduled_on_day ?b0) (aid, d)) ?als = Inr vs"
    using vs by (simp add: build_model_dicts [OF b])
  with c have "cs ! n = Constraint (LinLe (map (\<lambda>v. (1, v)) vs) (CREW_AVAILABLE cfg)) []"
    by (simp add: capacity_constraint_def)
  moreover have "cs ! n \<in> set (constraints (model b))"
    using nl by (simp add: cs)
  ultimately have "constraint_holds \<sigma>
      (Constraint (LinLe (map (\<lambda>v. (1, v)) vs) (CREW_AVAILABLE cfg)) [])"
    using feasible_constraint [OF f] by metis
  then show ?thesis by simp
qed

lemma windows_total:
  assumes "build_model cfg fleet = Inr b"
  shows "\<exists>ws. mapM (solved_window b \<sigma>) fleet = Inr ws"
  using solved_window_built [OF assms] by (intro mapM_total) blast

lemma lookups_total:
  assumes "build_model cfg fleet = Inr b" and "d \<in> set (py_range (PLANNING_HORIZON_DAYS cfg))"
  shows "\<exists>vs. mapM (\<lambda>aid. lookup (is_scheduled_on_day b) (aid, d)) (map aircraft_id fleet) = Inr vs"
proof (rule mapM_total)
  fix aid assume "aid \<in> set (map aircraft_id fleet)"
  then obtain a where "a \<in> set fleet" "aid = aircraft_id a" by auto
  with solved_window_built [OF assms(1), of a] assms(2)
  show "\<exists>y. lookup (is_scheduled_on_day b) (aid, d) = Inr y" by blast
qed

text \<open>The occupancy of a day by the solved windows is within the crew capacity.\<close>

lemma occupancy_bounded:
  assumes b: "build_model cfg fleet = Inr b" and f: "feasible \<sigma> (model b)"
    and d: "0 \<le> d" "d < PLANNING_HORIZON_DAYS cfg"
    and ws: "mapM (solved_window b \<sigma>) fleet = Inr ws"
  shows "int (occupancy ws d) \<le> CREW_AVAILABLE cfg"
proof -
  have dr: "d \<in> set (py_range (PLANNING_HORIZON_DAYS cfg))"
    using d by (simp add: set_py_range)
  from lookups_total [OF b dr] obtain vs
    where vs: "mapM (\<lambda>aid. lookup (is_scheduled_on_day b) (aid, d)) (map aircraft_id fleet) = Inr vs"
    by blast
  have lv: "length vs = length fleet" and lw: "length ws = length fleet"
    using vs ws by (auto simp: mapM_Inr_iff dest: list_all2_lengthD)
  have "list_all2 (\<lambda>v w. \<sigma> v = (if covers d w then 1 else 0)) vs ws"
  proof (rule list_all2_all_nthI)
    show "length vs = length ws" using lv lw by simp
  next
    fix n assume "n < length vs"
    then have n: "n < length fleet" using lv by simp
    then have mem: "fleet ! n \<in> set fleet" by simp
    from solved_window_built [OF b mem, of \<sigma>] dr obtain i where i: "i < length fleet"
      and w: "solved_window b \<sigma> (fleet ! n) = Inr (\<sigma> (Start i), \<sigma> (Dur i))"
      and o: "lookup (is_scheduled_on_day b) (aircraft_id (fleet ! n), d) = Inr (On i d)"
      by blast
    have "solved_window b \<sigma> (fleet ! n) = Inr (ws ! n)"
      using ws n by (auto simp: mapM_Inr_iff list_all2_conv_all_nth)
    with w have wn: "ws ! n = (\<sigma> (Start i), \<sigma> (Dur i))" by simp
    have "lookup (is_scheduled_on_day b) (map aircraft_id fleet ! n, d) = Inr (vs ! n)"
      using vs n by (auto simp: mapM_Inr_iff list_all2_conv_all_nth)
    with o n have vn: "vs ! n = On i d" by simp
    show "\<sigma> (vs ! n) = (if covers d (ws ! n) then 1 else 0)"
      unfolding vn wn by (rule feasible_on [OF b f i d])
  qed
  then have "lin_value \<sigma> (map (\<lambda>v. (1, v)) vs) = int (occupancy ws d)"
    by (rule lin_value_occupancy)
  with capacity_constraint_built [OF b f dr vs] show ?thesis by simp
qed

lemma allocate_part_ticks:
  "allocate_part rnd st = Inr (st1, pid, q, c) \<Longrightarrow> ticks st1 = ticks st"
  using allocate_part_result [of rnd st] by auto

text \<open>What the fields of the emitted tasks are, in terms of the solved windows.\<close>

lemma schedule_rows_fields:
  assumes "schedule_rows rnd clk b \<sigma> st rows = Inr (st', ts)"
    and "mapM (solved_window b \<sigma>) rows = Inr ws" and "i < length rows"
  shows "row_aircraft_id (ts ! i) = aircraft_id (rows ! i)
       \<and> schedule_start (ts ! i) = normalize_ts (clk (ticks st + 2 * i)) + Timedelta (fst (ws ! i))
       \<and> schedule_end (ts ! i)
           = normalize_ts (clk (ticks st + 2 * i + 1)) + Timedelta (fst (ws ! i) + snd (ws ! i))
       \<and> status (ts ! i) = ''SCHEDULED''"
  using assms
proof (induction rows arbitrary: st ts ws i)
  case Nil
  then show ?case by simp
next
  case (Cons row rows)
  from schedule_rows_Cons_Inr [OF Cons.prems(1)] obtain st1 t ts'
    where r: "schedule_row rnd clk b \<sigma> st row = Inr (st1, t)"
      and rs: "schedule_rows rnd clk b \<sigma> st1 rows = Inr (st', ts')" and ts: "ts = t # ts'"
    by blast
  from Cons.prems(2) obtain w ws' where w: "solved_window b \<sigma> row = Inr w"
    and ws': "mapM (solved_window b \<sigma>) rows = Inr ws'" and ws: "ws = w # ws'"
    by (auto split: sum.splits)
  from r obtain s dur st0 pid q c where sw: "solved_window b \<sigma> row = Inr (s, dur)"
    and al: "allocate_part rnd st = Inr (st0, pid, q, c)"
    and st1: "st1 = st0\<lparr>ticks := ticks st0 + 2\<rparr>"
    and t: "t = \<lparr>row_aircraft_id = aircraft_id row,
          schedule_start = normalize_ts (clk (ticks st0)) + Timedelta s,
          schedule_end = normalize_ts (clk (ticks st0 + 1)) + Timedelta (s + dur),
          row_part_id = pid, part_quantity = q, cost = c, status = ''SCHEDULED''\<rparr>"
    by (rule schedule_row_Inr)
  have tk: "ticks st0 = ticks st" by (rule allocate_part_ticks [OF al])
  show ?case
  proof (cases i)
    case 0
    with w sw ts ws t tk show ?thesis by auto
  next
    case (Suc n)
    with Cons.prems(3) have "n < length rows" by simp
    from Cons.IH [OF rs ws' this] Suc ts ws st1 tk show ?thesis by simp
  qed
qed

text \<open>
  C1. When \<open>generate_schedule\<close> returns a schedule for a model on which the solver is
  sound, the windows it read from the solver, one per emitted task, cover every day of
  the horizon at most \<open>CREW_AVAILABLE\<close> times.
\<close>

theorem capacity_respected:
  assumes "generate_schedule cfg solver sort_values rnd clk fleet parts = Inr tasks"
    and "build_model cfg fleet = Inr b"
    and "solver_sound solver (model b)"
    and "0 \<le> d" and "d < PLANNING_HORIZON_DAYS cfg"
  shows "\<exists>ws. mapM (solved_window b (snd (solver (model b)))) fleet = Inr ws
           \<and> length ws = length tasks
           \<and> map row_aircraft_id tasks = map aircraft_id fleet
           \<and> int (occupancy ws d) \<le> CREW_AVAILABLE cfg"
proof -
  from assms(1) obtain b' st \<sigma> st' where b': "build_model cfg fleet = Inr b'"
    and s: "solver (model b') = (st, \<sigma>)" and ok: "st = OPTIMAL \<or> st = FEASIBLE"
    and rows: "schedule_rows rnd clk b' \<sigma> (initial_state sort_values parts) fleet
                 = Inr (st', tasks)"
    by (rule generate_schedule_Inr)
  from b' assms(2) have bb: "b' = b" by simp
  have f: "feasible \<sigma> (model b)"
    using assms(3) s ok unfolding bb by (auto simp: solver_sound_def)
  from windows_total [OF assms(2)] obtain ws
    where ws: "mapM (solved_window b \<sigma>) fleet = Inr ws" by blast
  have l: "length tasks = length fleet"
    using schedule_rows_length [OF rows] .
  have "length ws = length fleet"
    using ws by (auto simp: mapM_Inr_iff dest: list_all2_lengthD)
  moreover have "map row_aircraft_id tasks = map aircraft_id fleet"
    using schedule_rows_fields [OF rows [unfolded bb] ws] l
    by (auto simp: list_eq_iff_nth_eq)
  moreover have "int (occupancy ws d) \<le> CREW_AVAILABLE cfg"
    by (rule occupancy_bounded [OF assms(2) f assms(4,5) ws])
  ultimately show ?thesis
    using ws l s by (auto simp: bb)
qed

lemma row_variables_built:
  assumes "build_model cfg fleet = Inr b" and "i < length fleet"
  shows "\<exists>j<length fleet. aircraft_id (fleet ! j) = aircraft_id (fleet ! i)
           \<and> start_day b (aircraft_id (fleet ! i)) = Some (Start j)
           \<and> duration b (aircraft_id (fleet ! i)) = Some (Dur j)
           \<and> solved_window b \<sigma> (fleet ! i) = Inr (\<sigma> (Start j), \<sigma> (Dur j))"
proof -
  have "aircraft_id (fleet ! i) \<in> set (map aircraft_id fleet)"
    using assms(2) by simp
  from add_variables_dicts [OF this, of cfg] obtain j
    where j: "j < length fleet" "map aircraft_id fleet ! j = aircraft_id (fleet ! i)"
      and s: "start_day (add_variables cfg (map aircraft_id fleet)) (aircraft_id (fleet ! i))
                = Some (Start j)"
      and d: "duration (add_variables cfg (map aircraft_id fleet)) (aircraft_id (fleet ! i))
                = Some (Dur j)"
    by auto
  from j have "aircraft_id (fleet ! j) = aircraft_id (fleet ! i)" by simp
  with j(1) s d show ?thesis
    by (auto simp: solved_window_def lookup_def build_model_dicts [OF assms(1)])
qed

text \<open>
  C4. Once the model is built, \<open>generate_schedule\<close> raises the error of line 103 exactly
  when the solver's status is neither \<open>OPTIMAL\<close> nor \<open>FEASIBLE\<close>. With one of these
  statuses it returns one task per aircraft, and the task of aircraft \<open>i\<close> is dated from
  the values that the solver reports for the variables \<open>start_day[aid]\<close> and
  \<open>duration[aid]\<close> of its id, which are the start and duration variables \<open>Start j\<close> and
  \<open>Dur j\<close> that the model has for an aircraft \<open>j\<close> with that id.
\<close>

theorem infeasible_error_iff_no_solution:
  assumes "build_model cfg fleet = Inr b"
  shows "(generate_schedule cfg solver sort_values rnd clk fleet parts
            = Inl (RuntimeError ''No feasible solution found'')
          \<longleftrightarrow> \<not> (fst (solver (model b)) = OPTIMAL \<or> fst (solver (model b)) = FEASIBLE))
       \<and> (fst (solver (model b)) = OPTIMAL \<or> fst (solver (model b)) = FEASIBLE \<longrightarrow>
            (\<exists>tasks. generate_schedule cfg solver sort_values rnd clk fleet parts = Inr tasks
               \<and> length tasks = length fleet
               \<and> (\<forall>i<length fleet. \<exists>j<length fleet.
                     aircraft_id (fleet ! j) = aircraft_id (fleet ! i)
                     \<and> start_day b (aircraft_id (fleet ! i)) = Some (Start j)
                     \<and> duration b (aircraft_id (fleet ! i)) = Some (Dur j)
                     \<and> row_aircraft_id (tasks ! i) = aircraft_id (fleet ! i)
                     \<and> schedule_start (tasks ! i)
                         = normalize_ts (clk (2 * i))
                           + Timedelta (snd (solver (model b)) (Start j))
                     \<and> schedule_end (tasks ! i)
                         = normalize_ts (clk (2 * i + 1))
                           + Timedelta (snd (solver (model b)) (Start j)
                                        + snd (solver (model b)) (Dur j)))))"
proof -
  obtain st \<sigma> where s: "solver (model b) = (st, \<sigma>)" by (cases "solver (model b)")
  show ?thesis
  proof (cases "st = OPTIMAL \<or> st = FEASIBLE")
    case False
    with assms s show ?thesis
      by (simp add: generate_schedule_def)
  next
    case True
    from windows_total [OF assms] obtain ws
      where ws: "mapM (solved_window b \<sigma>) fleet = Inr ws" by blast
    have "\<And>row. row \<in> set fleet \<Longrightarrow> \<exists>w. solved_window b \<sigma> row = Inr w"
      using solved_window_built [OF assms] by blast
    from schedule_rows_total [OF this] obtain st' tasks
      where rows: "schedule_rows rnd clk b \<sigma> (initial_state sort_values parts) fleet
                     = Inr (st', tasks)"
      by blast
    have g: "generate_schedule cfg solver sort_values rnd clk fleet parts = Inr tasks"
      using assms s True rows by (auto simp: generate_schedule_def)
    have t0: "ticks (initial_state sort_values parts) = 0"
      by (simp add: initial_state_def Let_def)
    have "\<exists>j<length fleet.
             aircraft_id (fleet ! j) = aircraft_id (fleet ! i)
             \<and> start_day b (aircraft_id (fleet ! i)) = Some (Start j)
             \<and> duration b (aircraft_id (fleet ! i)) = Some (Dur j)
             \<and> row_aircraft_id (tasks ! i) = aircraft_id (fleet ! i)
             \<and> schedule_start (tasks ! i) = normalize_ts (clk (2 * i)) + Timedelta (\<sigma> (Start j))
             \<and> schedule_end (tasks ! i)
                 = normalize_ts (clk (2 * i + 1)) + Timedelta (\<sigma> (Start j) + \<sigma> (Dur j))"
      if i: "i < length fleet" for i
    proof -
      from row_variables_built [OF assms i, of \<sigma>] obtain j where j: "j < length fleet"
        "aircraft_id (fleet ! j) = aircraft_id (fleet ! i)"
        "start_day b (aircraft_id (fleet ! i)) = Some (Start j)"
        "duration b (aircraft_id (fleet ! i)) = Some (Dur j)"
        and w: "solved_window b \<sigma> (fleet ! i) = Inr (\<sigma> (Start j), \<sigma> (Dur j))"
        by blast
      have "solved_window b \<sigma> (fleet ! i) = Inr (ws ! i)"
        using ws i by (auto simp: mapM_Inr_iff list_all2_conv_all_nth)
      with w have "ws ! i = (\<sigma> (Start j), \<sigma> (Dur j))" by simp
      with schedule_rows_fields [OF rows ws i] j show ?thesis
        by (intro exI [of _ j]) (simp add: t0)
    qed
    with g schedule_rows_length [OF rows] True s show ?thesis
      by auto
  qed
qed

text \<open>
  C5, as the code has it. There is no check of the configuration. With a minimum
  duration above the maximum and an aircraft in the fleet, no assignment is feasible for
  the built model, so a run with a sound solver ends in the error of line 103, raised
  after the solver has answered.
\<close>

theorem min_above_max_fails_after_solving:
  assumes "MAINT_DURATION_MAX cfg < MAINT_DURATION_MIN cfg" and "fleet \<noteq> []"
    and "build_model cfg fleet = Inr b" and "solver_sound solver (model b)"
  shows "generate_schedule cfg solver sort_values rnd clk fleet parts
           = Inl (RuntimeError ''No feasible solution found'')"
proof -
  obtain st \<sigma> where s: "solver (model b) = (st, \<sigma>)" by (cases "solver (model b)")
  have "\<not> feasible \<sigma> (model b)"
  proof
    assume f: "feasible \<sigma> (model b)"
    have "0 < length (map aircraft_id fleet)" using assms(2) by simp
    from add_variables_int_domains(2) [OF this, of cfg]
    have "(Dur 0, MAINT_DURATION_MIN cfg, MAINT_DURATION_MAX cfg) \<in> set (variables (model b))"
      by (simp add: build_model_variables [OF assms(3)])
    from feasible_in_domain [OF f this] assms(1) show False by simp
  qed
  with assms(4) s have "\<not> (st = OPTIMAL \<or> st = FEASIBLE)"
    by (auto simp: solver_sound_def)
  with assms(3) s show ?thesis
    by (simp add: generate_schedule_def)
qed

text \<open>
  C10. The allocation of lines 124 to 147 always returns. When it has drawn a random
  quantity, the part it selected had a stock of at least 1, and the quantity drawn lies
  between 1 and 3 and within that stock.
\<close>

theorem draw_never_fails:
  "\<exists>st' pid q c. allocate_part rnd st = Inr (st', pid, q, c)
     \<and> (draws st' \<noteq> draws st \<longrightarrow>
          (\<exists>j<length (parts_copy st).
              pid = Some (part_id (parts_copy st ! j))
              \<and> 1 \<le> quantity_on_hand (parts_copy st ! j)
              \<and> 1 \<le> q \<and> q \<le> 3 \<and> q \<le> quantity_on_hand (parts_copy st ! j)))"
proof -
  from allocate_part_result [of rnd st] obtain st' pid q c
    where r: "allocate_part rnd st = Inr (st', pid, q, c)"
      and o: "unallocated st st' pid q c \<or> (\<exists>j. allocated st st' pid q c j)"
    by blast
  have "\<exists>j<length (parts_copy st).
              pid = Some (part_id (parts_copy st ! j))
              \<and> 1 \<le> quantity_on_hand (parts_copy st ! j)
              \<and> 1 \<le> q \<and> q \<le> 3 \<and> q \<le> quantity_on_hand (parts_copy st ! j)"
    if "draws st' \<noteq> draws st"
  proof -
    from o that obtain j where "allocated st st' pid q c j"
      by (auto simp: unallocated_def)
    then show ?thesis
      by (intro exI [of _ j]) (auto simp: allocated_def)
  qed
  with r show ?thesis by blast
qed

text \<open>
  C7. Whatever order the sorting routine gives the working copy, the allocation never
  raises, and the \<open>k\<close>-th task of a returned schedule was emitted from the state \<open>st\<close>
  left by the first \<open>k\<close> aircraft with these fields: without a part, quantity 0, cost 0
  and the working stock unchanged; with a part, a row \<open>j\<close> of the working copy with that
  id, a quantity between 1 and \<open>min 3\<close> of the row's stock, the cost
  \<open>unit_cost * part_quantity\<close>, and the row's stock reduced by the quantity.
\<close>

theorem task_part_fields:
  assumes "generate_schedule cfg solver sort_values rnd clk fleet parts = Inr tasks"
    and "k < length tasks"
  shows "(\<forall>s. \<exists>r. allocate_part rnd s = Inr r)
       \<and> (\<exists>b \<sigma> st st'.
             schedule_rows rnd clk b \<sigma> (initial_state sort_values parts) (take k fleet)
               = Inr (st, take k tasks)
           \<and> schedule_row rnd clk b \<sigma> st (fleet ! k) = Inr (st', tasks ! k)
           \<and> (case row_part_id (tasks ! k) of
                None \<Rightarrow>
                  part_quantity (tasks ! k) = 0 \<and> cost (tasks ! k) = 0
                  \<and> parts_copy st' = parts_copy st
              | Some pid \<Rightarrow>
                  (\<exists>j<length (parts_copy st).
                      part_id (parts_copy st ! j) = pid
                    \<and> 1 \<le> part_quantity (tasks ! k)
                    \<and> part_quantity (tasks ! k) \<le> min 3 (quantity_on_hand (parts_copy st ! j))
                    \<and> cost (tasks ! k)
                        = fmul (unit_cost (parts_copy st ! j)) (of_int (part_quantity (tasks ! k)))
                    \<and> parts_copy st' = (parts_copy st)
                        [j := (parts_copy st ! j)
                           \<lparr>quantity_on_hand :=
                              quantity_on_hand (parts_copy st ! j) - part_quantity (tasks ! k)\<rparr>])))"
proof -
  have total: "\<forall>s. \<exists>r. allocate_part rnd s = Inr r"
    using allocate_part_result [of rnd] by blast
  from assms(1) obtain b sta \<sigma> stz where
    rows: "schedule_rows rnd clk b \<sigma> (initial_state sort_values parts) fleet = Inr (stz, tasks)"
    by (rule generate_schedule_Inr)
  have k: "k < length fleet"
    using schedule_rows_length [OF rows] assms(2) by simp
  from schedule_rows_nth [OF rows k] obtain st st'
    where pre: "schedule_rows rnd clk b \<sigma> (initial_state sort_values parts) (take k fleet)
                  = Inr (st, take k tasks)"
      and step: "schedule_row rnd clk b \<sigma> st (fleet ! k) = Inr (st', tasks ! k)"
    by blast
  from step obtain s dur st1 pid q c where
    al: "allocate_part rnd st = Inr (st1, pid, q, c)"
    and st': "st' = st1\<lparr>ticks := ticks st1 + 2\<rparr>"
    and t: "tasks ! k = \<lparr>row_aircraft_id = aircraft_id (fleet ! k),
          schedule_start = normalize_ts (clk (ticks st1)) + Timedelta s,
          schedule_end = normalize_ts (clk (ticks st1 + 1)) + Timedelta (s + dur),
          row_part_id = pid, part_quantity = q, cost = c, status = ''SCHEDULED''\<rparr>"
    by (rule schedule_row_Inr)
  from allocate_part_result [of rnd st] al
  have o: "unallocated st st1 pid q c \<or> (\<exists>j. allocated st st1 pid q c j)" by simp
  have "case row_part_id (tasks ! k) of
                None \<Rightarrow>
                  part_quantity (tasks ! k) = 0 \<and> cost (tasks ! k) = 0
                  \<and> parts_copy st' = parts_copy st
              | Some pid \<Rightarrow>
                  (\<exists>j<length (parts_copy st).
                      part_id (parts_copy st ! j) = pid
                    \<and> 1 \<le> part_quantity (tasks ! k)
                    \<and> part_quantity (tasks ! k) \<le> min 3 (quantity_on_hand (parts_copy st ! j))
                    \<and> cost (tasks ! k)
                        = fmul (unit_cost (parts_copy st ! j)) (of_int (part_quantity (tasks ! k)))
                    \<and> parts_copy st' = (parts_copy st)
                        [j := (parts_copy st ! j)
                           \<lparr>quantity_on_hand :=
                              quantity_on_hand (parts_copy st ! j) - part_quantity (tasks ! k)\<rparr>])"
    using o
  proof
    assume "unallocated st st1 pid q c"
    then show ?thesis by (simp add: unallocated_def t st')
  next
    assume "\<exists>j. allocated st st1 pid q c j"
    then obtain j where "allocated st st1 pid q c j" ..
    then show ?thesis
      unfolding t st' by (auto simp: allocated_def intro!: exI [of _ j])
  qed
  with total pre step show ?thesis by blast
qed

lemma stock_update:
  assumes "j < length xs"
  shows "stock pid (xs[j := (xs ! j)\<lparr>quantity_on_hand := v\<rparr>])
           = stock pid xs - (if part_id (xs ! j) = pid then quantity_on_hand (xs ! j) - v else 0)"
  using assms
proof (induction xs arbitrary: j)
  case Nil
  then show ?case by simp
next
  case (Cons x xs)
  show ?case
  proof (cases j)
    case 0
    then show ?thesis by (simp add: stock_def)
  next
    case (Suc n)
    with Cons.prems have "n < length xs" by simp
    from Cons.IH [OF this] Suc show ?thesis
      by (simp add: stock_def)
  qed
qed

lemma stock_mset:
  assumes "mset xs = mset ys"
  shows "stock pid xs = stock pid ys"
proof -
  have "stock pid zs
          = sum_mset (image_mset quantity_on_hand (filter_mset (\<lambda>p. part_id p = pid) (mset zs)))"
    for zs
    unfolding stock_def by (metis mset_filter mset_map sum_mset_sum_list)
  with assms show ?thesis by simp
qed

lemma stock_nonneg:
  "\<forall>p\<in>set xs. 0 \<le> quantity_on_hand p \<Longrightarrow> 0 \<le> stock pid xs"
  by (auto simp: stock_def intro!: sum_list_nonneg)

lemma consumed_Cons: "consumed pid (t # ts) = consumed pid [t] + consumed pid ts"
  by (simp add: consumed_def)

text \<open>One aircraft: the stock stays non-negative and what the task consumes leaves it.\<close>

lemma schedule_row_stock:
  assumes "schedule_row rnd clk b \<sigma> st row = Inr (st', t)"
    and "\<forall>p\<in>set (parts_copy st). 0 \<le> quantity_on_hand p"
  shows "\<forall>p\<in>set (parts_copy st'). 0 \<le> quantity_on_hand p"
    and "stock pid (parts_copy st') + consumed pid [t] = stock pid (parts_copy st)"
proof -
  from assms(1) obtain s dur st1 pid' q c where
    al: "allocate_part rnd st = Inr (st1, pid', q, c)"
    and st': "st' = st1\<lparr>ticks := ticks st1 + 2\<rparr>"
    and t: "t = \<lparr>row_aircraft_id = aircraft_id row,
          schedule_start = normalize_ts (clk (ticks st1)) + Timedelta s,
          schedule_end = normalize_ts (clk (ticks st1 + 1)) + Timedelta (s + dur),
          row_part_id = pid', part_quantity = q, cost = c, status = ''SCHEDULED''\<rparr>"
    by (rule schedule_row_Inr)
  from allocate_part_result [of rnd st] al
  have o: "unallocated st st1 pid' q c \<or> (\<exists>j. allocated st st1 pid' q c j)" by simp
  have "(\<forall>p\<in>set (parts_copy st'). 0 \<le> quantity_on_hand p)
      \<and> stock pid (parts_copy st') + consumed pid [t] = stock pid (parts_copy st)"
    using o
  proof
    assume "unallocated st st1 pid' q c"
    with assms(2) show ?thesis
      by (simp add: unallocated_def st' t consumed_def)
  next
    assume "\<exists>j. allocated st st1 pid' q c j"
    then obtain j where j: "j < length (parts_copy st)"
      and pid': "pid' = Some (part_id (parts_copy st ! j))"
      and q: "1 \<le> q" "q \<le> min 3 (quantity_on_hand (parts_copy st ! j))"
      and pc: "parts_copy st1 = (parts_copy st)
          [j := (parts_copy st ! j)\<lparr>quantity_on_hand := quantity_on_hand (parts_copy st ! j) - q\<rparr>]"
      by (auto simp: allocated_def)
    have "0 \<le> quantity_on_hand p" if "p \<in> set (parts_copy st')" for p
    proof -
      from that have "p \<in> insert ((parts_copy st ! j)
          \<lparr>quantity_on_hand := quantity_on_hand (parts_copy st ! j) - q\<rparr>) (set (parts_copy st))"
        using set_update_subset_insert [of "parts_copy st" j] by (auto simp: st' pc)
      with assms(2) q show ?thesis by auto
    qed
    moreover have "stock pid (parts_copy st') + consumed pid [t] = stock pid (parts_copy st)"
      by (simp add: st' pc stock_update [OF j] t pid' consumed_def)
    ultimately show ?thesis by blast
  qed
  then show "\<forall>p\<in>set (parts_copy st'). 0 \<le> quantity_on_hand p"
    and "stock pid (parts_copy st') + consumed pid [t] = stock pid (parts_copy st)"
    by blast+
qed

lemma schedule_rows_stock:
  assumes "schedule_rows rnd clk b \<sigma> st rows = Inr (st', ts)"
    and "\<forall>p\<in>set (parts_copy st). 0 \<le> quantity_on_hand p"
  shows "(\<forall>p\<in>set (parts_copy st'). 0 \<le> quantity_on_hand p)
       \<and> stock pid (parts_copy st') + consumed pid ts = stock pid (parts_copy st)"
  using assms
proof (induction rows arbitrary: st ts)
  case Nil
  then show ?case by (simp add: consumed_def)
next
  case (Cons row rows)
  from schedule_rows_Cons_Inr [OF Cons.prems(1)] obtain st1 t ts'
    where r: "schedule_row rnd clk b \<sigma> st row = Inr (st1, t)"
      and rs: "schedule_rows rnd clk b \<sigma> st1 rows = Inr (st', ts')" and ts: "ts = t # ts'"
    by blast
  note step = schedule_row_stock [OF r Cons.prems(2)]
  from Cons.IH [OF rs step(1)] step(2) [of pid] show ?case
    unfolding ts by (subst consumed_Cons) simp
qed

lemma initial_state_parts_copy:
  "parts_copy (initial_state sort_values parts) = sort_values parts"
  by (simp add: initial_state_def Let_def)

text \<open>
  C6. Take a run that returns a schedule from an inventory without negative stock, with
  a sorting routine that returns the rows it was given in whatever order. After any
  number of aircraft the working copy has no negative stock, and the tasks emitted so
  far consume of every part id at most the stock the inventory had of it.
\<close>

theorem stock_never_negative:
  assumes "generate_schedule cfg solver sort_values rnd clk fleet parts = Inr tasks"
    and "mset (sort_values parts) = mset parts"
    and "\<forall>p\<in>set parts. 0 \<le> quantity_on_hand p"
  shows "\<exists>b \<sigma>.
           (\<forall>k\<le>length fleet. \<exists>st.
               schedule_rows rnd clk b \<sigma> (initial_state sort_values parts) (take k fleet)
                 = Inr (st, take k tasks)
               \<and> (\<forall>p\<in>set (parts_copy st). 0 \<le> quantity_on_hand p)
               \<and> (\<forall>pid. consumed pid (take k tasks) \<le> stock pid parts))"
proof -
  from assms(1) obtain b sta \<sigma> stz where
    rows: "schedule_rows rnd clk b \<sigma> (initial_state sort_values parts) fleet = Inr (stz, tasks)"
    by (rule generate_schedule_Inr)
  have "set (sort_values parts) = set parts"
    using assms(2) by (rule mset_eq_setD)
  with assms(3)
  have init: "\<forall>p\<in>set (parts_copy (initial_state sort_values parts)). 0 \<le> quantity_on_hand p"
    by (simp add: initial_state_parts_copy)
  have "\<exists>st. schedule_rows rnd clk b \<sigma> (initial_state sort_values parts) (take k fleet)
                 = Inr (st, take k tasks)
               \<and> (\<forall>p\<in>set (parts_copy st). 0 \<le> quantity_on_hand p)
               \<and> (\<forall>pid. consumed pid (take k tasks) \<le> stock pid parts)"
    if "k \<le> length fleet" for k
  proof -
    from schedule_rows_prefix [OF rows that] obtain st
      where pre: "schedule_rows rnd clk b \<sigma> (initial_state sort_values parts) (take k fleet)
                    = Inr (st, take k tasks)"
      by blast
    note inv = schedule_rows_stock [OF pre init]
    have "consumed pid (take k tasks) \<le> stock pid parts" for pid
    proof -
      have "stock pid (parts_copy st) + consumed pid (take k tasks) = stock pid parts"
        using inv [of pid] by (simp add: initial_state_parts_copy stock_mset [OF assms(2)])
      moreover have "0 \<le> stock pid (parts_copy st)"
        using inv [of pid] by (intro stock_nonneg) blast
      ultimately show ?thesis by linarith
    qed
    with pre inv show ?thesis by blast
  qed
  then show ?thesis by blast
qed

lemma row_weight_nonzero:
  "mh \<noteq> 0 \<Longrightarrow>
     row_weight mh a
       = Inr (max 1 (py_int (fmul (rd (of_int (mh - hours_until_due a) / of_int mh)) 100)))"
  by (simp add: row_weight_def truediv_def Let_def)

lemma compute_weights_distinct:
  assumes "mh \<noteq> 0" and "distinct (map aircraft_id rows)"
  shows "\<exists>w. compute_weights mh rows w0 = Inr w
           \<and> (\<forall>a\<in>set rows. row_weight mh a = lookup w (aircraft_id a))
           \<and> (\<forall>aid. aid \<notin> aircraft_id ` set rows \<longrightarrow> w aid = w0 aid)"
  using assms(2)
proof (induction rows arbitrary: w0)
  case Nil
  then show ?case by simp
next
  case (Cons row rows)
  obtain x where x: "row_weight mh row = Inr x"
    using row_weight_nonzero [OF assms(1)] by blast
  from Cons.prems have d: "distinct (map aircraft_id rows)"
    and n: "aircraft_id row \<notin> aircraft_id ` set rows"
    by auto
  from Cons.IH [OF d, of "w0(aircraft_id row \<mapsto> x)"] obtain w
    where w: "compute_weights mh rows (w0(aircraft_id row \<mapsto> x)) = Inr w"
      and in_rows: "\<forall>a\<in>set rows. row_weight mh a = lookup w (aircraft_id a)"
      and out: "\<forall>aid. aid \<notin> aircraft_id ` set rows \<longrightarrow> w aid = (w0(aircraft_id row \<mapsto> x)) aid"
    by blast
  have "w (aircraft_id row) = Some x" using out n by simp
  then have "row_weight mh row = lookup w (aircraft_id row)"
    by (simp add: x lookup_def)
  with x w in_rows out show ?case by auto
qed

lemma capacity_constraint_total:
  assumes "d \<in> set (py_range (PLANNING_HORIZON_DAYS cfg))"
  shows "\<exists>c. capacity_constraint cfg (add_variables cfg als) als d = Inr c"
proof -
  have "\<exists>vs. mapM (\<lambda>aid. lookup (is_scheduled_on_day (add_variables cfg als)) (aid, d)) als = Inr vs"
  proof (rule mapM_total)
    fix aid assume "aid \<in> set als"
    from add_variables_dicts [OF this, of cfg] assms
    show "\<exists>y. lookup (is_scheduled_on_day (add_variables cfg als)) (aid, d) = Inr y"
      by (auto simp: lookup_def)
  qed
  then show ?thesis by (auto simp: capacity_constraint_def)
qed

lemma add_capacity_total:
  "\<exists>b. add_capacity cfg (add_variables cfg als) als = Inr b"
proof -
  have "\<exists>cs. mapM (capacity_constraint cfg (add_variables cfg als) als)
               (py_range (PLANNING_HORIZON_DAYS cfg)) = Inr cs"
    by (rule mapM_total) (rule capacity_constraint_total)
  then show ?thesis by (auto simp: add_capacity_def)
qed

text \<open>
  C3, as the code has it. For a fleet with distinct aircraft ids whose largest hours
  until due is not zero (an empty fleet has the maximum 1), the model is built and its
  objective is the sum over the aircraft, in fleet order, of the start day of aircraft
  \<open>i\<close> times \<open>max(1, int(((max_hours - hours_until_due) / max_hours) * 100))\<close>: the
  quotient and the product are binary64 operations and \<open>int\<close> truncates.
\<close>

theorem objective_uses_truncated_weights:
  assumes "distinct (map aircraft_id fleet)" and "max_hours fleet \<noteq> 0"
  shows "built_objective cfg fleet =
           Inr (map (\<lambda>(i, a).
                  (max 1 (py_int (fmul (rd (of_int (max_hours fleet - hours_until_due a)
                                             / of_int (max_hours fleet))) 100)),
                   Start i))
                (enumerate 0 fleet))"
proof -
  let ?als = "map aircraft_id fleet"
  let ?mh = "max_hours fleet"
  let ?wt = "\<lambda>a. max 1 (py_int (fmul (rd (of_int (?mh - hours_until_due a) / of_int ?mh)) 100))"
  obtain b1 where b1: "add_capacity cfg (add_variables cfg ?als) ?als = Inr b1"
    using add_capacity_total by blast
  have sd: "start_day b1 = start_day (add_variables cfg ?als)"
    by (rule add_capacity_Inr(1) [OF b1])
  from compute_weights_distinct [OF assms(2,1), of Map.empty] obtain w
    where w: "compute_weights ?mh fleet Map.empty = Inr w"
      and wl: "\<forall>a\<in>set fleet. row_weight ?mh a = lookup w (aircraft_id a)"
    by blast
  have tm: "objective_term b1 w (?als ! i) = Inr (?wt (fleet ! i), Start i)"
    if "i < length fleet" for i
  proof -
    have "start_day b1 (?als ! i) = Some (Start i)"
      unfolding sd using that by (intro add_variables_start_day_distinct [OF assms(1)]) simp
    moreover have "lookup w (?als ! i) = Inr (?wt (fleet ! i))"
      using wl that row_weight_nonzero [OF assms(2), of "fleet ! i"] by simp
    ultimately show ?thesis
      by (simp add: objective_term_def lookup_def)
  qed
  let ?terms = "map (\<lambda>(i, a). (?wt a, Start i)) (enumerate 0 fleet)"
  have "list_all2 (\<lambda>aid t. objective_term b1 w aid = Inr t) ?als ?terms"
  proof (rule list_all2_all_nthI)
    show "length ?als = length ?terms" by simp
  next
    fix n assume "n < length ?als"
    then have n: "n < length fleet" by simp
    have "?terms ! n = (?wt (fleet ! n), Start n)"
      using n by (simp add: nth_enumerate_eq)
    with tm [OF n] show "objective_term b1 w (?als ! n) = Inr (?terms ! n)"
      by (simp only:)
  qed
  then have "mapM (objective_term b1 w) ?als = Inr ?terms"
    by (simp only: mapM_Inr_iff)
  with b1 w show ?thesis
    by (simp add: built_objective_def build_model_def Let_def)
qed

text \<open>
  A maximum of zero hours is not replaced by 1: the division of line 90 raises before
  the solver is called.
\<close>

lemma zero_maximum_raises:
  "generate_schedule module_config solver_A stable_sort_values rnd_A clk_A fleet_Z parts_A = Inl ZeroDivisionError"
  by code_simp

lemma Timedelta_add: "Timedelta (a + b) = Timedelta a + Timedelta b"
  by (simp add: Timedelta_def algebra_simps)

text \<open>
  While every reading of the clock falls on the same date, each task ends its duration
  after it starts, and all tasks are dated from that date.
\<close>

lemma steady_clock_dates:
  assumes "generate_schedule cfg solver sort_values rnd clk fleet parts = Inr tasks"
    and "\<And>k. normalize_ts (clk k) = anchor_date" and "i < length tasks"
  shows "\<exists>b \<sigma> w. solved_window b \<sigma> (fleet ! i) = Inr w
           \<and> schedule_start (tasks ! i) = anchor_date + Timedelta (fst w)
           \<and> schedule_end (tasks ! i) = anchor_date + Timedelta (fst w + snd w)
           \<and> schedule_end (tasks ! i) - schedule_start (tasks ! i) = Timedelta (snd w)
           \<and> status (tasks ! i) = ''SCHEDULED''"
proof -
  from assms(1) obtain b st \<sigma> st' where b: "build_model cfg fleet = Inr b"
    and rows: "schedule_rows rnd clk b \<sigma> (initial_state sort_values parts) fleet = Inr (st', tasks)"
    by (rule generate_schedule_Inr)
  from windows_total [OF b] obtain ws
    where ws: "mapM (solved_window b \<sigma>) fleet = Inr ws" by blast
  have i: "i < length fleet"
    using schedule_rows_length [OF rows] assms(3) by simp
  have w: "solved_window b \<sigma> (fleet ! i) = Inr (ws ! i)"
    using ws i by (auto simp: mapM_Inr_iff list_all2_conv_all_nth)
  from schedule_rows_fields [OF rows ws i] w show ?thesis
    by (intro exI [of _ b] exI [of _ \<sigma>] exI [of _ "ws ! i"])
      (simp add: assms(2) Timedelta_add)
qed

lemma gen_A:
  "generate_schedule module_config solver_A stable_sort_values rnd_A clk_A fleet_A parts_A = Inr tasks_A"
  by code_simp

lemma sound_A: "solver_sound solver_A (model builder_A)"
  by (simp add: solver_sound_def solver_A_def feasible_A)

theorem capacity_respected_witness:
  "generate_schedule module_config solver_A stable_sort_values rnd_A clk_A fleet_A parts_A = Inr tasks_A
   \<and> build_model module_config fleet_A = Inr builder_A
   \<and> solver_sound solver_A (model builder_A)
   \<and> (0::int) \<le> 0 \<and> 0 < PLANNING_HORIZON_DAYS module_config
   \<and> (\<exists>ws. mapM (solved_window builder_A (snd (solver_A (model builder_A)))) fleet_A = Inr ws
           \<and> length ws = length tasks_A
           \<and> map row_aircraft_id tasks_A = map aircraft_id fleet_A
           \<and> int (occupancy ws 0) \<le> CREW_AVAILABLE module_config)"
proof -
  have z: "(0::int) \<le> 0" by simp
  have h: "0 < PLANNING_HORIZON_DAYS module_config" by (simp add: module_config_def)
  from capacity_respected [OF gen_A build_A sound_A z h] gen_A build_A sound_A z h
  show ?thesis by blast
qed

lemma status_A: "fst (solver_A (model builder_A)) = OPTIMAL"
  by (simp add: solver_A_def)

theorem infeasible_error_iff_no_solution_witness:
  "build_model module_config fleet_A = Inr builder_A
   \<and> fst (solver_A (model builder_A)) = OPTIMAL
   \<and> generate_schedule module_config solver_A stable_sort_values rnd_A clk_A fleet_A parts_A
        \<noteq> Inl (RuntimeError ''No feasible solution found'')
   \<and> (\<exists>tasks j.
         generate_schedule module_config solver_A stable_sort_values rnd_A clk_A fleet_A parts_A
           = Inr tasks
       \<and> length tasks = length fleet_A
       \<and> j < length fleet_A
       \<and> aircraft_id (fleet_A ! j) = aircraft_id (fleet_A ! 1)
       \<and> start_day builder_A (aircraft_id (fleet_A ! 1)) = Some (Start j)
       \<and> duration builder_A (aircraft_id (fleet_A ! 1)) = Some (Dur j)
       \<and> row_aircraft_id (tasks ! 1) = aircraft_id (fleet_A ! 1)
       \<and> schedule_start (tasks ! 1)
           = normalize_ts (clk_A (2 * 1)) + Timedelta (snd (solver_A (model builder_A)) (Start j))
       \<and> schedule_end (tasks ! 1)
           = normalize_ts (clk_A (2 * 1 + 1))
             + Timedelta (snd (solver_A (model builder_A)) (Start j)
                          + snd (solver_A (model builder_A)) (Dur j)))"
proof -
  have l: "1 < length fleet_A" by (simp add: fleet_A_def)
  note th = infeasible_error_iff_no_solution [OF build_A, where solver = solver_A
      and sort_values = stable_sort_values and rnd = rnd_A and clk = clk_A and parts = parts_A]
  from th status_A
  have neq: "generate_schedule module_config solver_A stable_sort_values rnd_A clk_A fleet_A parts_A
               \<noteq> Inl (RuntimeError ''No feasible solution found'')"
    by simp
  from th status_A obtain tasks where
    g: "generate_schedule module_config solver_A stable_sort_values rnd_A clk_A fleet_A parts_A
          = Inr tasks"
    and len: "length tasks = length fleet_A"
    and all: "\<forall>i<length fleet_A. \<exists>j<length fleet_A.
                     aircraft_id (fleet_A ! j) = aircraft_id (fleet_A ! i)
                     \<and> start_day builder_A (aircraft_id (fleet_A ! i)) = Some (Start j)
                     \<and> duration builder_A (aircraft_id (fleet_A ! i)) = Some (Dur j)
                     \<and> row_aircraft_id (tasks ! i) = aircraft_id (fleet_A ! i)
                     \<and> schedule_start (tasks ! i)
                         = normalize_ts (clk_A (2 * i))
                           + Timedelta (snd (solver_A (model builder_A)) (Start j))
                     \<and> schedule_end (tasks ! i)
                         = normalize_ts (clk_A (2 * i + 1))
                           + Timedelta (snd (solver_A (model builder_A)) (Start j)
                                        + snd (solver_A (model builder_A)) (Dur j))"
    by blast
  from all l obtain j where "j < length fleet_A"
    "aircraft_id (fleet_A ! j) = aircraft_id (fleet_A ! 1)"
    "start_day builder_A (aircraft_id (fleet_A ! 1)) = Some (Start j)"
    "duration builder_A (aircraft_id (fleet_A ! 1)) = Some (Dur j)"
    "row_aircraft_id (tasks ! 1) = aircraft_id (fleet_A ! 1)"
    "schedule_start (tasks ! 1)
       = normalize_ts (clk_A (2 * 1)) + Timedelta (snd (solver_A (model builder_A)) (Start j))"
    "schedule_end (tasks ! 1)
       = normalize_ts (clk_A (2 * 1 + 1))
         + Timedelta (snd (solver_A (model builder_A)) (Start j)
                      + snd (solver_A (model builder_A)) (Dur j))"
    by blast
  with build_A status_A neq g len show ?thesis by blast
qed

lemma build_E: "build_model config_E fleet_D = Inr builder_E"
proof -
  have "case build_model config_E fleet_D of Inl e \<Rightarrow> False | Inr b \<Rightarrow> True"
    by code_simp
  then show ?thesis
    by (simp add: builder_E_def split: sum.splits)
qed

theorem min_above_max_fails_after_solving_witness:
  "MAINT_DURATION_MAX config_E < MAINT_DURATION_MIN config_E \<and> fleet_D \<noteq> []
   \<and> build_model config_E fleet_D = Inr builder_E
   \<and> solver_sound solver_E (model builder_E)
   \<and> generate_schedule config_E solver_E stable_sort_values rnd_A clk_A fleet_D parts_A
       = Inl (RuntimeError ''No feasible solution found'')"
proof -
  have 1: "MAINT_DURATION_MAX config_E < MAINT_DURATION_MIN config_E"
    by (simp add: config_E_def)
  have 2: "fleet_D \<noteq> []" by (simp add: fleet_D_def)
  have 3: "solver_sound solver_E (model builder_E)"
    by (simp add: solver_sound_def solver_E_def)
  from min_above_max_fails_after_solving [OF 1 2 build_E 3] 1 2 build_E 3
  show ?thesis by blast
qed

lemma build_D: "build_model config_D fleet_D = Inr builder_D"
proof -
  have "case build_model config_D fleet_D of Inl e \<Rightarrow> False | Inr b \<Rightarrow> True"
    by code_simp
  then show ?thesis
    by (simp add: builder_D_def split: sum.splits)
qed

lemma feasible_D: "feasible (window_assignment (\<lambda>i. (0, 3))) (model builder_D)"
  unfolding builder_D_def by code_simp

lemma gen_D:
  "generate_schedule config_D solver_D stable_sort_values rnd_A clk_A fleet_D parts_A = Inr tasks_D"
  by code_simp

text \<open>
  C5 as stated fails: with a horizon of 2 days and durations of 3 days, a window
  starting on day 0 is a feasible solution of the built model, and the run of a solver
  that reports it returns a schedule instead of a configuration error.
\<close>

theorem config_error_counterexample:
  "PLANNING_HORIZON_DAYS config_D < MAINT_DURATION_MAX config_D
   \<and> PLANNING_HORIZON_DAYS config_D < MAINT_DURATION_MIN config_D
   \<and> build_model config_D fleet_D = Inr builder_D
   \<and> solver_sound solver_D (model builder_D)
   \<and> generate_schedule config_D solver_D stable_sort_values rnd_A clk_A fleet_D parts_A = Inr tasks_D"
  using build_D gen_D feasible_D
  by (simp add: config_D_def solver_sound_def solver_D_def)

lemma allocate_A:
  "allocate_part rnd_A (initial_state stable_sort_values parts_A) =
     Inr (\<lparr>parts_copy =
            [\<lparr>part_id = ''PART-102'', unit_cost = 10, quantity_on_hand = 0\<rparr>,
             \<lparr>part_id = ''PART-101'', unit_cost = 5 / 2, quantity_on_hand = 1\<rparr>],
          part_idx = 1, total_parts_available = 1, draws = 1, ticks = 0\<rparr>,
          Some ''PART-102'', 2, 20)"
  by code_simp

theorem draw_never_fails_witness:
  "\<exists>st' pid q c. allocate_part rnd_A (initial_state stable_sort_values parts_A) = Inr (st', pid, q, c)
     \<and> draws st' \<noteq> draws (initial_state stable_sort_values parts_A)
     \<and> (\<exists>j<length (parts_copy (initial_state stable_sort_values parts_A)).
              pid = Some (part_id (parts_copy (initial_state stable_sort_values parts_A) ! j))
              \<and> 1 \<le> quantity_on_hand (parts_copy (initial_state stable_sort_values parts_A) ! j)
              \<and> 1 \<le> q \<and> q \<le> 3
              \<and> q \<le> quantity_on_hand (parts_copy (initial_state stable_sort_values parts_A) ! j))"
proof -
  from draw_never_fails [of rnd_A "initial_state stable_sort_values parts_A"] obtain st' pid q c
    where r: "allocate_part rnd_A (initial_state stable_sort_values parts_A) = Inr (st', pid, q, c)"
      and i: "draws st' \<noteq> draws (initial_state stable_sort_values parts_A) \<longrightarrow>
          (\<exists>j<length (parts_copy (initial_state stable_sort_values parts_A)).
              pid = Some (part_id (parts_copy (initial_state stable_sort_values parts_A) ! j))
              \<and> 1 \<le> quantity_on_hand (parts_copy (initial_state stable_sort_values parts_A) ! j)
              \<and> 1 \<le> q \<and> q \<le> 3
              \<and> q \<le> quantity_on_hand (parts_copy (initial_state stable_sort_values parts_A) ! j))"
    by blast
  have "draws st' = 1" using r by (auto simp: allocate_A)
  moreover have "draws (initial_state stable_sort_values parts_A) = 0" by (simp add: initial_state_def Let_def)
  ultimately have "draws st' \<noteq> draws (initial_state stable_sort_values parts_A)" by simp
  with r i show ?thesis by blast
qed

theorem task_part_fields_witness:
  "generate_schedule module_config solver_A stable_sort_values rnd_A clk_A fleet_A parts_A = Inr tasks_A
   \<and> 0 < length tasks_A
   \<and> (\<exists>b \<sigma> st st'.
         schedule_rows rnd_A clk_A b \<sigma> (initial_state stable_sort_values parts_A) (take 0 fleet_A)
           = Inr (st, take 0 tasks_A)
       \<and> schedule_row rnd_A clk_A b \<sigma> st (fleet_A ! 0) = Inr (st', tasks_A ! 0)
       \<and> (case row_part_id (tasks_A ! 0) of
            None \<Rightarrow>
              part_quantity (tasks_A ! 0) = 0 \<and> cost (tasks_A ! 0) = 0
              \<and> parts_copy st' = parts_copy st
          | Some pid \<Rightarrow>
              (\<exists>j<length (parts_copy st).
                  part_id (parts_copy st ! j) = pid
                \<and> 1 \<le> part_quantity (tasks_A ! 0)
                \<and> part_quantity (tasks_A ! 0) \<le> min 3 (quantity_on_hand (parts_copy st ! j))
                \<and> cost (tasks_A ! 0)
                    = fmul (unit_cost (parts_copy st ! j)) (of_int (part_quantity (tasks_A ! 0)))
                \<and> parts_copy st' = (parts_copy st)
                    [j := (parts_copy st ! j)
                       \<lparr>quantity_on_hand :=
                          quantity_on_hand (parts_copy st ! j) - part_quantity (tasks_A ! 0)\<rparr>])))"
proof -
  have k: "0 < length tasks_A" by (simp add: tasks_A_def)
  from task_part_fields [OF gen_A k] gen_A k show ?thesis by blast
qed

text \<open>
  C8 on a run that passes midnight between the two clock readings of a task. The solver
  assigns start day 0 and a duration of 1 day; the emitted task starts on day 0 and ends
  on day 2.
\<close>

theorem anchor_read_twice:
  "generate_schedule module_config solver_A stable_sort_values rnd_A clk_midnight fleet_D [] = Inr tasks_midnight"
  by code_simp

text \<open>
  C3 as stated fails: for hours until due of 1 and 3 the code's weight of the first
  aircraft is 66, the truncation of 66.67, where the specified rounding gives 67.
\<close>

theorem rounded_weight_counterexample:
  "built_objective module_config fleet_R = Inr [(66, Start 0), (1, Start 1)]
   \<and> spec_objective fleet_R = [(67, Start 0), (1, Start 1)]
   \<and> built_objective module_config fleet_R \<noteq> Inr (spec_objective fleet_R)"
proof -
  have 1: "built_objective module_config fleet_R = Inr [(66, Start 0), (1, Start 1)]"
    by code_simp
  have 2: "spec_objective fleet_R = [(67, Start 0), (1, Start 1)]"
    by code_simp
  from 1 2 show ?thesis by simp
qed

theorem objective_uses_truncated_weights_witness:
  "distinct (map aircraft_id fleet_A) \<and> max_hours fleet_A \<noteq> 0
   \<and> built_objective module_config fleet_A =
       Inr (map (\<lambda>(i, a).
              (max 1 (py_int (fmul (rd (of_int (max_hours fleet_A - hours_until_due a)
                                         / of_int (max_hours fleet_A))) 100)),
               Start i))
            (enumerate 0 fleet_A))"
proof -
  have 1: "distinct (map aircraft_id fleet_A)" by (simp add: fleet_A_def)
  have 2: "max_hours fleet_A \<noteq> 0" by (simp add: max_hours_A)
  from objective_uses_truncated_weights [OF 1 2, of module_config] 1 2
  show ?thesis by blast
qed

theorem stock_never_negative_witness:
  "generate_schedule module_config solver_A stable_sort_values rnd_A clk_A fleet_A parts_A = Inr tasks_A
   \<and> mset (stable_sort_values parts_A) = mset parts_A
   \<and> list_all (\<lambda>p. 0 \<le> quantity_on_hand p) parts_A
   \<and> (\<exists>b \<sigma> st.
         schedule_rows rnd_A clk_A b \<sigma> (initial_state stable_sort_values parts_A) (take 3 fleet_A)
           = Inr (st, take 3 tasks_A)
       \<and> list_all (\<lambda>p. 0 \<le> quantity_on_hand p) (parts_copy st)
       \<and> consumed ''PART-102'' (take 3 tasks_A) \<le> stock ''PART-102'' parts_A)"
proof -
  have nn: "\<forall>p\<in>set parts_A. 0 \<le> quantity_on_hand p" by (simp add: parts_A_def)
  have pm: "mset (stable_sort_values parts_A) = mset parts_A"
    by (simp add: stable_sort_values_def)
  have l: "3 \<le> length fleet_A" by (simp add: fleet_A_def)
  from stock_never_negative [OF gen_A pm nn] obtain b \<sigma> where
    "\<forall>k\<le>length fleet_A. \<exists>st.
        schedule_rows rnd_A clk_A b \<sigma> (initial_state stable_sort_values parts_A) (take k fleet_A)
          = Inr (st, take k tasks_A)
        \<and> (\<forall>p\<in>set (parts_copy st). 0 \<le> quantity_on_hand p)
        \<and> (\<forall>pid. consumed pid (take k tasks_A) \<le> stock pid parts_A)"
    by blast
  with l obtain st where
    "schedule_rows rnd_A clk_A b \<sigma> (initial_state stable_sort_values parts_A) (take 3 fleet_A)
       = Inr (st, take 3 tasks_A)"
    "\<forall>p\<in>set (parts_copy st). 0 \<le> quantity_on_hand p"
    "\<forall>pid. consumed pid (take 3 tasks_A) \<le> stock pid parts_A"
    by blast
  with gen_A pm nn show ?thesis
    by (auto simp: list_all_iff)
qed

end
